theory Spec2Isabelle
  imports Complex_Main "HOL-Library.Sublist"
begin

section \<open>JSON values and the JavaScript operations applied to them\<close>

text \<open>
  The job (\<^verbatim>\<open>src/pages/api/cron/query-stats.ts\<close>) reads two JSON documents whose shape it
  does not check: the body of the completions response (\<^verbatim>\<open>await res.json()\<close>) and the
  completion text (\<^verbatim>\<open>JSON.parse(text) as QueryStatData[]\<close>, an unchecked cast). They are
  modelled as JSON values; a JavaScript value that may be \<^verbatim>\<open>undefined\<close> is a
  \<open>json option\<close> with \<open>None\<close> for \<^verbatim>\<open>undefined\<close>.
\<close>

datatype json =
    JNull
  | JBool bool
  | JNum rat
  | JStr string
  | JArr "json list"
  | JObj "(string \<times> json) list"

type_synonym jsval = "json option"

text \<open>What the source can throw: a \<^verbatim>\<open>TypeError\<close> (property read on \<^verbatim>\<open>null\<close> or
  \<^verbatim>\<open>undefined\<close>, \<^verbatim>\<open>for ... of\<close> over a value that is not iterable) and the rejection of
  \<^verbatim>\<open>fetch\<close> or \<^verbatim>\<open>res.json()\<close>. A \<^verbatim>\<open>SyntaxError\<close> of \<^verbatim>\<open>JSON.parse\<close> is the value \<open>None\<close> of
  the parser.\<close>

datatype exn = TypeError | FetchRejected

text \<open>\<^verbatim>\<open>v.k\<close> for the property names the job reads (\<^verbatim>\<open>error\<close>, \<^verbatim>\<open>usage\<close>,
  \<^verbatim>\<open>total_tokens\<close>, \<^verbatim>\<open>id\<close>, \<^verbatim>\<open>prompt\<close>, \<^verbatim>\<open>response\<close>): none of them is inherited from a
  prototype, so only an object can have them. An object is an association list whose
  first binding of a key is the property.\<close>

fun get_prop :: "json \<Rightarrow> string \<Rightarrow> exn + jsval" where
  "get_prop JNull k = Inl TypeError"
| "get_prop (JObj kvs) k = Inr (map_of kvs k)"
| "get_prop (JBool b) k = Inr None"
| "get_prop (JNum x) k = Inr None"
| "get_prop (JStr s) k = Inr None"
| "get_prop (JArr xs) k = Inr None"

fun get_prop_val :: "jsval \<Rightarrow> string \<Rightarrow> exn + jsval" where
  "get_prop_val None k = Inl TypeError"
| "get_prop_val (Some v) k = get_prop v k"

text \<open>JavaScript truthiness, as used by \<^verbatim>\<open>if (json.error)\<close>.\<close>

fun truthy :: "jsval \<Rightarrow> bool" where
  "truthy None = False"
| "truthy (Some JNull) = False"
| "truthy (Some (JBool b)) = b"
| "truthy (Some (JNum x)) = (x \<noteq> 0)"
| "truthy (Some (JStr s)) = (s \<noteq> [])"
| "truthy (Some (JArr xs)) = True"
| "truthy (Some (JObj kvs)) = True"

section \<open>Data model\<close>

text \<open>\<^verbatim>\<open>type QueryStatData = { id: string; prompt: string | null; response: string | null }\<close>\<close>

record QueryStatData =
  q_id :: string
  q_prompt :: "string option"
  q_response :: "string option"

text \<open>A row of the table \<^verbatim>\<open>query_stats\<close>: the columns the job names; every other column is
  the record's extension.\<close>

record row =
  row_id :: string
  project_id :: string
  processed :: bool
  prompt :: "string option"
  response :: "string option"

text \<open>The object passed to \<^verbatim>\<open>.update({ processed, prompt, response })\<close>.\<close>

record update_values =
  set_processed :: bool
  set_prompt :: jsval
  set_response :: jsval

text \<open>\<^verbatim>\<open>OpenAIModelIdWithType\<close> and the constant \<^verbatim>\<open>model\<close> of the job.\<close>

record OpenAIModelIdWithType =
  model_type :: string
  model_value :: string

definition model_gpt :: OpenAIModelIdWithType where
  "model_gpt = \<lparr>model_type = ''chat_completions'', model_value = ''gpt-3.5-turbo''\<rparr>"

text \<open>The value of \<^verbatim>\<open>geLLMInfoFromModel(model)\<close>; the function is not part of the source file
  and stays uninterpreted.\<close>

datatype llm_info = LLMInfo OpenAIModelIdWithType

text \<open>The \<^verbatim>\<open>payload\<close> object and the request given to \<^verbatim>\<open>fetch\<close>.\<close>

record payload =
  pl_model :: string
  pl_temperature :: rat
  pl_top_p :: rat
  pl_frequency_penalty :: rat
  pl_presence_penalty :: rat
  pl_max_tokens :: nat
  pl_stream :: bool
  pl_n :: nat
  pl_messages :: "(string \<times> string) list"

record request =
  rq_url :: string
  rq_headers :: "(string \<times> string) list"
  rq_method :: string
  rq_body :: payload

text \<open>Every call the job makes to an outside collaborator, in the order made. A
  \<open>Select\<close> carries the store's answer (\<open>None\<close> is \<^verbatim>\<open>data: null\<close>).\<close>

datatype effect =
    Select string "QueryStatData list option"
  | Delete "string list"
  | GetProjectConfig string
  | Fetch request
  | RecordProjectTokenCount string llm_info int string
  | Update update_values jsval
  | SelectProjectIds

fun is_Fetch :: "effect \<Rightarrow> bool" where
  "is_Fetch (Fetch r) = True"
| "is_Fetch e = False"

fun is_Update :: "effect \<Rightarrow> bool" where
  "is_Update (Update v i) = True"
| "is_Update e = False"

fun is_Delete :: "effect \<Rightarrow> bool" where
  "is_Delete (Delete ids) = True"
| "is_Delete e = False"

record 'a world =
  rows :: "'a row_scheme list"
  trace :: "effect list"

section \<open>What the source file imports\<close>

text \<open>
  Constants and functions the job imports from files that are not part of the source
  (\<^verbatim>\<open>@/lib/constants\<close>, \<^verbatim>\<open>@/lib/utils\<close>, \<^verbatim>\<open>@/lib/utils.edge\<close>, \<^verbatim>\<open>@/lib/supabase\<close>), the
  built-ins \<^verbatim>\<open>JSON.stringify\<close> and \<^verbatim>\<open>JSON.parse\<close>, the process environment, and the
  behaviour of the outside world are parameters; the imported functions are taken to
  return normally. A token count is a natural number (the
  specification: a length-based approximation). \<open>store_error env n\<close> says whether the
  store call made after \<open>n\<close> earlier calls fails; \<open>fetch_json env r\<close> is the parsed body
  of the response to \<open>r\<close>, \<open>None\<close> when \<^verbatim>\<open>fetch\<close> or \<^verbatim>\<open>res.json()\<close> rejects;
  \<open>text_column env v\<close> is what the store keeps when a value that is neither a string
  nor \<^verbatim>\<open>null\<close> is written to a text column; \<open>filter_text env v\<close> is the text of a
  value \<open>v\<close> that is not a string inside a template literal.
\<close>

record env =
  CONTEXT_TOKENS_CUTOFF_GPT_3_5_TURBO :: nat
  approximatedTokenCount :: "string \<Rightarrow> nat"
  JSON_stringify :: "QueryStatData \<Rightarrow> string"
  JSON_stringify_pretty :: "QueryStatData list \<Rightarrow> string"
  JSON_parse :: "string \<Rightarrow> json option"
  getProjectConfigData :: "string \<Rightarrow> string option"
  OPENAI_API_KEY :: "string option"
  getCompletionsUrl :: "OpenAIModelIdWithType \<Rightarrow> string"
  safeParseInt :: "jsval \<Rightarrow> int \<Rightarrow> int"
  getCompletionsResponseText :: "json \<Rightarrow> OpenAIModelIdWithType \<Rightarrow> string"
  fetch_json :: "request \<Rightarrow> json option"
  store_error :: "nat \<Rightarrow> bool"
  text_column :: "json \<Rightarrow> string option"
  filter_text :: "jsval \<Rightarrow> string"
  code_points :: "string \<Rightarrow> string list"
  utf16_length :: "string \<Rightarrow> nat"
  view_project_ids :: "string option list option"

text \<open>
  \<^verbatim>\<open>for (const entry of v)\<close> together with \<^verbatim>\<open>v.length\<close>: an array yields its elements
  and has their number as its length; a string yields its code points, each as a string
  (\<open>code_points\<close>), while its length counts UTF-16 code units (\<open>utf16_length\<close>);
  anything else is not iterable.
\<close>

fun js_entries :: "env \<Rightarrow> json \<Rightarrow> exn + (json list \<times> nat)" where
  "js_entries env (JArr xs) = Inr (xs, length xs)"
| "js_entries env (JStr s) = Inr (map JStr (code_points env s), utf16_length env s)"
| "js_entries env JNull = Inl TypeError"
| "js_entries env (JBool b) = Inl TypeError"
| "js_entries env (JNum x) = Inl TypeError"
| "js_entries env (JObj kvs) = Inl TypeError"

text \<open>
  The store client writes the value of \<^verbatim>\<open>.eq('id', v)\<close> into the request as the text
  \<^verbatim>\<open>`eq.${v}`\<close>: a string as it is, any other value as \<open>filter_text\<close> gives it (so the
  number 5 and the string \<^verbatim>\<open>'5'\<close> make the same request).
\<close>

definition eq_text :: "env \<Rightarrow> jsval \<Rightarrow> string" where
  "eq_text env v = (case v of Some (JStr s) \<Rightarrow> s | _ \<Rightarrow> filter_text env v)"

section \<open>The store calls of the job\<close>

text \<open>
  The store is the external database behind \<^verbatim>\<open>supabaseAdmin\<close>; its three calls are modelled
  from the queries the source builds and the store contract of the specification (read
  unprocessed records by tenant, delete records by id list, update records by id). The
  client reports a failure as a value (\<^verbatim>\<open>data: null\<close>, \<^verbatim>\<open>error\<close>) and does not throw; a
  failing call changes nothing.

  \<^verbatim>\<open>.from('query_stats').select('id,prompt,response')
   .match({ project_id: projectId, processed: false }).limit(10)\<close>
\<close>

definition select_query_stats ::
    "env \<Rightarrow> string \<Rightarrow> 'a world \<Rightarrow> QueryStatData list option \<times> 'a world" where
  "select_query_stats env projectId w =
     (let data =
        (if store_error env (length (trace w)) then None
         else Some (map (\<lambda>r. \<lparr>q_id = row_id r, q_prompt = prompt r, q_response = response r\<rparr>)
                 (take 10 (filter (\<lambda>r. project_id r = projectId \<and> processed r = False) (rows w)))))
      in (data, w\<lparr>trace := trace w @ [Select projectId data]\<rparr>))"

text \<open>\<^verbatim>\<open>.from('query_stats').delete().in('id', overflowingQueryIds)\<close>\<close>

definition delete_in_id :: "env \<Rightarrow> string list \<Rightarrow> 'a world \<Rightarrow> 'a world" where
  "delete_in_id env ids w =
     w\<lparr>rows := (if store_error env (length (trace w)) then rows w
                else filter (\<lambda>r. row_id r \<notin> set ids) (rows w)),
       trace := trace w @ [Delete ids]\<rparr>"

text \<open>A value written to a text column: \<^verbatim>\<open>undefined\<close> is dropped from the request body and
  leaves the column as it is, \<^verbatim>\<open>null\<close> clears it, a string replaces it.\<close>

fun write_text :: "env \<Rightarrow> jsval \<Rightarrow> string option \<Rightarrow> string option" where
  "write_text env None old = old"
| "write_text env (Some JNull) old = None"
| "write_text env (Some (JStr s)) old = Some s"
| "write_text env (Some v) old = text_column env v"

definition apply_update :: "env \<Rightarrow> update_values \<Rightarrow> 'a row_scheme \<Rightarrow> 'a row_scheme" where
  "apply_update env vals r =
     r\<lparr>processed := set_processed vals,
       prompt := write_text env (set_prompt vals) (prompt r),
       response := write_text env (set_response vals) (response r)\<rparr>"

text \<open>\<^verbatim>\<open>.from('query_stats').update(vals).eq('id', idv)\<close>; the first component is
  whether the call reported an \<^verbatim>\<open>error\<close>. A row matches when its id is the text the
  client wrote for \<open>idv\<close>.\<close>

definition update_eq_id ::
    "env \<Rightarrow> update_values \<Rightarrow> jsval \<Rightarrow> 'a world \<Rightarrow> bool \<times> 'a world" where
  "update_eq_id env vals idv w =
     (let err = store_error env (length (trace w))
      in (err,
          w\<lparr>rows := (if err then rows w
                     else map (\<lambda>r. if row_id r = eq_text env idv then apply_update env vals r else r)
                            (rows w)),
            trace := trace w @ [Update vals idv]\<rparr>))"

section \<open>Batch selection\<close>

text \<open>\<^verbatim>\<open>estimateQueryTokenCount\<close> (lines 41-43).\<close>

definition estimateQueryTokenCount :: "env \<Rightarrow> QueryStatData \<Rightarrow> nat" where
  "estimateQueryTokenCount env query = approximatedTokenCount env (JSON_stringify env query)"

text \<open>\<^verbatim>\<open>trimQueries\<close> (lines 45-59). The loop carries \<^verbatim>\<open>tokenCount\<close> and
  \<^verbatim>\<open>trimmedQueries\<close>; \<^verbatim>\<open>break\<close> returns what has been pushed so far.\<close>

fun trimQueries_loop ::
    "env \<Rightarrow> rat \<Rightarrow> nat \<Rightarrow> QueryStatData list \<Rightarrow> QueryStatData list \<Rightarrow> QueryStatData list" where
  "trimQueries_loop env maxTokens tokenCount trimmedQueries [] = trimmedQueries"
| "trimQueries_loop env maxTokens tokenCount trimmedQueries (query # queries) =
     (let tokenCount' = tokenCount + estimateQueryTokenCount env query
      in if of_nat tokenCount' \<ge> maxTokens then trimmedQueries
         else trimQueries_loop env maxTokens tokenCount' (trimmedQueries @ [query]) queries)"

definition trimQueries :: "env \<Rightarrow> QueryStatData list \<Rightarrow> rat \<Rightarrow> QueryStatData list" where
  "trimQueries env queries maxTokens = trimQueries_loop env maxTokens 0 [] queries"

text \<open>\<^verbatim>\<open>const maxTokens = CONTEXT_TOKENS_CUTOFF_GPT_3_5_TURBO * 0.5\<close> (line 83).\<close>

definition maxTokens :: "env \<Rightarrow> rat" where
  "maxTokens env = of_nat (CONTEXT_TOKENS_CUTOFF_GPT_3_5_TURBO env) * 0.5"

text \<open>\<^verbatim>\<open>overflowingQueryIds\<close> (lines 84-86): \<^verbatim>\<open>map\<close> to the id or \<^verbatim>\<open>null\<close>, then
  \<^verbatim>\<open>filter(isPresent)\<close>.\<close>

definition overflowingQueryIds :: "env \<Rightarrow> QueryStatData list \<Rightarrow> string list" where
  "overflowingQueryIds env queries =
     List.map_filter
       (\<lambda>q. if of_nat (estimateQueryTokenCount env q) > maxTokens env then Some (q_id q) else None)
       queries"

section \<open>The completions request\<close>

text \<open>The template literal of lines 99-105.\<close>

definition completionsPrompt :: "env \<Rightarrow> QueryStatData list \<Rightarrow> string" where
  "completionsPrompt env trimmedQueries =
     ''The following is a list of questions and responses in JSON format. Please keep the JSON, and don''
     @ [CHR 0x27]
     @ ''t touch the ids, but remove any personally identifiable information from the prompt and response entry:''
     @ [CHR 0x0A, CHR 0x0A]
     @ JSON_stringify_pretty env trimmedQueries
     @ [CHR 0x0A, CHR 0x0A]
     @ ''Return as a JSON with the exact same structure.''"

text \<open>\<^verbatim>\<open>(byoOpenAIKey || process.env.OPENAI_API_KEY) ?? ''\<close>\<close>

definition bearerKey :: "env \<Rightarrow> string \<Rightarrow> string" where
  "bearerKey env projectId =
     (case getProjectConfigData env projectId of
        Some k \<Rightarrow> (if k \<noteq> [] then k else (case OPENAI_API_KEY env of Some d \<Rightarrow> d | None \<Rightarrow> []))
      | None \<Rightarrow> (case OPENAI_API_KEY env of Some d \<Rightarrow> d | None \<Rightarrow> []))"

definition completionsRequest :: "env \<Rightarrow> string \<Rightarrow> QueryStatData list \<Rightarrow> request" where
  "completionsRequest env projectId trimmedQueries =
     \<lparr>rq_url = getCompletionsUrl env model_gpt,
      rq_headers = [(''Content-Type'', ''application/json''),
                    (''Authorization'', ''Bearer '' @ bearerKey env projectId)],
      rq_method = ''POST'',
      rq_body = \<lparr>pl_model = model_value model_gpt, pl_temperature = 0.1, pl_top_p = 1,
                 pl_frequency_penalty = 0, pl_presence_penalty = 0, pl_max_tokens = 2048,
                 pl_stream = False, pl_n = 1,
                 pl_messages = [(''user'', completionsPrompt env trimmedQueries)]\<rparr>\<rparr>"

section \<open>processProjectQueryStats\<close>

text \<open>
  The function (lines 61-196) in three parts, in the order of the source. A part returns
  \<open>Inl r\<close> when the function ends there with the result \<open>r\<close> (\<open>Inr n\<close> for
  \<^verbatim>\<open>return n\<close>, \<open>Inl e\<close> for an exception that leaves the function), and \<open>Inr v\<close> when
  the function goes on with \<open>v\<close>. Calls to \<^verbatim>\<open>console\<close> are left out.

  Lines 66-147: the select, the guard on an empty result, the overflow deletion, the
  trim, the request and \<^verbatim>\<open>res.json()\<close>.
\<close>

definition submitQueries ::
    "env \<Rightarrow> string \<Rightarrow> 'a world \<Rightarrow> ((exn + nat) + json) \<times> 'a world" where
  "submitQueries env projectId w0 =
     (case select_query_stats env projectId w0 of
        (None, w1) \<Rightarrow> (Inl (Inr 0), w1)
      | (Some queries, w1) \<Rightarrow>
          if length queries = 0 then (Inl (Inr 0), w1)
          else
            let ids = overflowingQueryIds env queries;
                w2 = (if length ids > 0 then delete_in_id env ids w1 else w1);
                trimmedQueries = trimQueries env queries (maxTokens env);
                w3 = w2\<lparr>trace := trace w2 @ [GetProjectConfig projectId]\<rparr>;
                req = completionsRequest env projectId trimmedQueries;
                w4 = w3\<lparr>trace := trace w3 @ [Fetch req]\<rparr>
            in (case fetch_json env req of
                  None \<Rightarrow> (Inl (Inl FetchRejected), w4)
                | Some json \<Rightarrow> (Inr json, w4)))"

text \<open>Lines 149-165: the check of \<^verbatim>\<open>json.error\<close>, the reading of
  \<^verbatim>\<open>json.usage.total_tokens\<close>, the metering call and the completion text.\<close>

definition recordUsage ::
    "env \<Rightarrow> string \<Rightarrow> json \<Rightarrow> 'a world \<Rightarrow> ((exn + nat) + string) \<times> 'a world" where
  "recordUsage env projectId json w =
     (case get_prop json ''error'' of
        Inl e \<Rightarrow> (Inl (Inl e), w)
      | Inr err \<Rightarrow>
          if truthy err then (Inl (Inr 0), w)
          else
            (case get_prop json ''usage'' of
               Inl e \<Rightarrow> (Inl (Inl e), w)
             | Inr usage \<Rightarrow>
                 (case get_prop_val usage ''total_tokens'' of
                    Inl e \<Rightarrow> (Inl (Inl e), w)
                  | Inr total_tokens \<Rightarrow>
                      let tokenCount = safeParseInt env total_tokens 0;
                          w' = w\<lparr>trace := trace w @
                                 [RecordProjectTokenCount projectId (LLMInfo model_gpt) tokenCount
                                    ''query-stats'']\<rparr>
                      in (Inr (getCompletionsResponseText env json model_gpt), w'))))"

text \<open>The loop of lines 172-188. \<^verbatim>\<open>entry.id\<close> is read first (line 173) and throws on
  \<^verbatim>\<open>null\<close>; the \<^verbatim>\<open>error\<close> of an update is logged and otherwise ignored.\<close>

fun updateEntries :: "env \<Rightarrow> json list \<Rightarrow> 'a world \<Rightarrow> (exn + unit) \<times> 'a world" where
  "updateEntries env [] w = (Inr (), w)"
| "updateEntries env (entry # entries) w =
     (case get_prop entry ''id'' of
        Inl e \<Rightarrow> (Inl e, w)
      | Inr idv \<Rightarrow>
          (case get_prop entry ''prompt'' of
             Inl e \<Rightarrow> (Inl e, w)
           | Inr p \<Rightarrow>
               (case get_prop entry ''response'' of
                  Inl e \<Rightarrow> (Inl e, w)
                | Inr r \<Rightarrow>
                    updateEntries env entries
                      (snd (update_eq_id env
                              \<lparr>set_processed = True, set_prompt = p, set_response = r\<rparr> idv w)))))"

text \<open>Lines 167-195: the \<^verbatim>\<open>try\<close> block, whose \<^verbatim>\<open>catch\<close> turns every exception into
  \<^verbatim>\<open>return 0\<close>. The read of \<^verbatim>\<open>.length\<close> for the log line throws exactly on \<^verbatim>\<open>null\<close>,
  where the iteration throws as well. The value returned is \<^verbatim>\<open>.length\<close> of the parsed
  value.\<close>

definition updateQueryStats :: "env \<Rightarrow> string \<Rightarrow> 'a world \<Rightarrow> (exn + nat) \<times> 'a world" where
  "updateQueryStats env text w =
     (case JSON_parse env text of
        None \<Rightarrow> (Inr 0, w)
      | Some processedQueryStatData \<Rightarrow>
          (case js_entries env processedQueryStatData of
             Inl e \<Rightarrow> (Inr 0, w)
           | Inr (entries, len) \<Rightarrow>
               (case updateEntries env entries w of
                  (Inl e, w') \<Rightarrow> (Inr 0, w')
                | (Inr u, w') \<Rightarrow> (Inr len, w'))))"

definition processProjectQueryStats ::
    "env \<Rightarrow> string \<Rightarrow> 'a world \<Rightarrow> (exn + nat) \<times> 'a world" where
  "processProjectQueryStats env projectId w =
     (case submitQueries env projectId w of
        (Inl r, w1) \<Rightarrow> (r, w1)
      | (Inr json, w1) \<Rightarrow>
          (case recordUsage env projectId json w1 of
             (Inl r, w2) \<Rightarrow> (r, w2)
           | (Inr text, w2) \<Rightarrow> updateQueryStats env text w2))"

section \<open>The HTTP handler\<close>

record NextApiRequest =
  req_method :: "string option"
  req_projectId :: "string option"

text \<open>\<^verbatim>\<open>type Data = { status?: string; processed?: number; error?: string }\<close>\<close>

record Data =
  data_status :: "string option"
  data_processed :: "nat option"
  data_error :: "string option"

record NextApiResponse =
  res_status :: nat
  res_headers :: "(string \<times> string list) list"
  res_body :: Data

definition allowedMethods :: "string list" where
  "allowedMethods = [''GET'']"

text \<open>The template literal \<^verbatim>\<open>`Method ${req.method} Not Allowed`\<close>.\<close>

definition notAllowedMessage :: "string option \<Rightarrow> string" where
  "notAllowedMessage m =
     ''Method '' @ (case m of None \<Rightarrow> ''undefined'' | Some s \<Rightarrow> s) @ '' Not Allowed''"

definition ok :: "nat \<Rightarrow> NextApiResponse" where
  "ok n = \<lparr>res_status = 200, res_headers = [],
           res_body = \<lparr>data_status = Some ''ok'', data_processed = Some n, data_error = None\<rparr>\<rparr>"

text \<open>The loop of lines 222-228; a \<^verbatim>\<open>project_id\<close> that is \<^verbatim>\<open>null\<close> or empty is skipped.\<close>

fun processProjects ::
    "env \<Rightarrow> string option list \<Rightarrow> nat \<Rightarrow> 'a world \<Rightarrow> (exn + nat) \<times> 'a world" where
  "processProjects env [] totalProcessed w = (Inr totalProcessed, w)"
| "processProjects env (None # ps) totalProcessed w = processProjects env ps totalProcessed w"
| "processProjects env (Some p # ps) totalProcessed w =
     (if p = [] then processProjects env ps totalProcessed w
      else
        (case processProjectQueryStats env p w of
           (Inl e, w') \<Rightarrow> (Inl e, w')
         | (Inr n, w') \<Rightarrow> processProjects env ps (totalProcessed + n) w'))"

text \<open>The branch without a \<^verbatim>\<open>projectId\<close> (lines 212-229): the view
  \<^verbatim>\<open>v_distinct_unprocessed_query_stats_project_ids\<close> is read with \<^verbatim>\<open>.limit(20)\<close>.\<close>

definition processDiscovered :: "env \<Rightarrow> 'a world \<Rightarrow> (exn + NextApiResponse) \<times> 'a world" where
  "processDiscovered env w =
     (let w1 = w\<lparr>trace := trace w @ [SelectProjectIds]\<rparr>
      in (case view_project_ids env of
            None \<Rightarrow> (Inr (ok 0), w1)
          | Some data \<Rightarrow>
              (case processProjects env (take 20 data) 0 w1 of
                 (Inl e, w') \<Rightarrow> (Inl e, w')
               | (Inr totalProcessed, w') \<Rightarrow> (Inr (ok totalProcessed), w'))))"

text \<open>\<^verbatim>\<open>handler\<close> (lines 198-231).\<close>

definition handler ::
    "env \<Rightarrow> NextApiRequest \<Rightarrow> 'a world \<Rightarrow> (exn + NextApiResponse) \<times> 'a world" where
  "handler env req w =
     (if (case req_method req of None \<Rightarrow> True | Some m \<Rightarrow> m = [] \<or> \<not> List.member allowedMethods m)
      then
        (Inr \<lparr>res_status = 405, res_headers = [(''Allow'', allowedMethods)],
              res_body = \<lparr>data_status = None, data_processed = None,
                          data_error = Some (notAllowedMessage (req_method req))\<rparr>\<rparr>, w)
      else
        (case req_projectId req of
           Some projectId \<Rightarrow>
             (if projectId \<noteq> [] then
                (case processProjectQueryStats env projectId w of
                   (Inl e, w') \<Rightarrow> (Inl e, w')
                 | (Inr n, w') \<Rightarrow> (Inr (ok n), w'))
              else processDiscovered env w)
         | None \<Rightarrow> processDiscovered env w))"


section \<open>Notions used to state the properties\<close>

text \<open>
  The estimated cost of a list of records: the sum of the estimates of its members.
\<close>

definition batchCost :: "env \<Rightarrow> QueryStatData list \<Rightarrow> nat" where
  "batchCost env qs = sum_list (map (estimateQueryTokenCount env) qs)"

text \<open>
  The specification's reading of the greedy trim, in its own words: the records that
  remain after overflow eviction, and the longest prefix of a list of records whose
  cumulative cost is below the budget (the empty list when no prefix is).
\<close>

definition spec_remaining :: "env \<Rightarrow> rat \<Rightarrow> QueryStatData list \<Rightarrow> QueryStatData list" where
  "spec_remaining env budget queries =
     filter (\<lambda>q. \<not> of_nat (estimateQueryTokenCount env q) > budget) queries"

definition spec_longest_prefix :: "env \<Rightarrow> rat \<Rightarrow> QueryStatData list \<Rightarrow> QueryStatData list" where
  "spec_longest_prefix env budget rs =
     (case List.find (\<lambda>p. of_nat (batchCost env p) < budget) (rev (prefixes rs)) of
        None \<Rightarrow> [] | Some p \<Rightarrow> p)"

text \<open>
  A property of an entry that is not \<^verbatim>\<open>null\<close>, the update the loop issues for such an
  entry, the entries of a completion text (none when the text does not parse or the
  parsed value cannot be iterated), and the ids a list of entries names, as the text
  the store receives.
\<close>

definition entry_prop :: "json \<Rightarrow> string \<Rightarrow> jsval" where
  "entry_prop entry k = (case get_prop entry k of Inl e \<Rightarrow> None | Inr v \<Rightarrow> v)"

definition entryUpdate :: "json \<Rightarrow> effect" where
  "entryUpdate entry =
     Update \<lparr>set_processed = True, set_prompt = entry_prop entry ''prompt'',
             set_response = entry_prop entry ''response''\<rparr> (entry_prop entry ''id'')"

definition parsedEntries :: "env \<Rightarrow> string \<Rightarrow> json list" where
  "parsedEntries env text =
     (case JSON_parse env text of
        None \<Rightarrow> []
      | Some d \<Rightarrow> (case js_entries env d of Inl e \<Rightarrow> [] | Inr (entries, len) \<Rightarrow> entries))"

definition entryIds :: "env \<Rightarrow> json list \<Rightarrow> string set" where
  "entryIds env entries = (\<lambda>e. eq_text env (entry_prop e ''id'')) ` set entries"

text \<open>
  The calls of processProjectQueryStats written out: those of lines 66-147 given the
  answer of the select, those of lines 149-195 given the response body, and both
  together.
\<close>

definition submitTrace :: "env \<Rightarrow> string \<Rightarrow> QueryStatData list option \<Rightarrow> effect list" where
  "submitTrace env projectId data =
     (case data of
        None \<Rightarrow> [Select projectId None]
      | Some queries \<Rightarrow>
          if queries = [] then [Select projectId (Some [])]
          else [Select projectId (Some queries)]
               @ (if overflowingQueryIds env queries = [] then []
                  else [Delete (overflowingQueryIds env queries)])
               @ [GetProjectConfig projectId,
                  Fetch (completionsRequest env projectId (trimQueries env queries (maxTokens env)))])"

definition completionTrace :: "env \<Rightarrow> string \<Rightarrow> json \<Rightarrow> effect list" where
  "completionTrace env projectId json =
     (case get_prop json ''error'' of
        Inl e \<Rightarrow> []
      | Inr err \<Rightarrow>
          if truthy err then []
          else
            (case get_prop json ''usage'' of
               Inl e \<Rightarrow> []
             | Inr usage \<Rightarrow>
                 (case get_prop_val usage ''total_tokens'' of
                    Inl e \<Rightarrow> []
                  | Inr tt \<Rightarrow>
                      RecordProjectTokenCount projectId (LLMInfo model_gpt) (safeParseInt env tt 0)
                        ''query-stats''
                      # map entryUpdate
                          (takeWhile (\<lambda>e. e \<noteq> JNull)
                             (parsedEntries env (getCompletionsResponseText env json model_gpt))))))"

definition processTrace :: "env \<Rightarrow> string \<Rightarrow> 'a world \<Rightarrow> effect list" where
  "processTrace env p w =
     submitTrace env p (fst (select_query_stats env p w))
     @ (case fst (submitQueries env p w) of Inl r \<Rightarrow> [] | Inr json \<Rightarrow> completionTrace env p json)"

text \<open>
  What an update never writes: the id, the project and every other column of a row.
  \<open>touched S r r'\<close> relates a row to what it has become: the same frame, and either
  no change at all or a processed row whose id is in \<open>S\<close>.
\<close>

definition row_frame :: "'a row_scheme \<Rightarrow> string \<times> string \<times> 'a" where
  "row_frame r = (row_id r, project_id r, row.more r)"

definition touched :: "string set \<Rightarrow> 'a row_scheme \<Rightarrow> 'a row_scheme \<Rightarrow> bool" where
  "touched S r r' \<longleftrightarrow>
     row_frame r' = row_frame r \<and> (r' = r \<or> (processed r' \<and> row_id r \<in> S))"

text \<open>
  The calls a run may make to the store. \<open>deletes_justified env fetched es\<close> reads the
  calls \<open>es\<close> in order, remembers the records of the latest select, and accepts a
  delete only if each id it names is the id of one of those records whose own cost
  exceeds the threshold. \<open>marks_processed\<close> accepts an update only if it writes
  \<^verbatim>\<open>processed: true\<close>. \<open>step_ok env w w'\<close>: the world \<open>w'\<close> extends the trace of
  \<open>w\<close> by such calls, and every row of \<open>w'\<close> is processed or is a row of \<open>w\<close>.
\<close>

fun deletes_justified :: "env \<Rightarrow> QueryStatData list \<Rightarrow> effect list \<Rightarrow> bool" where
  "deletes_justified env fetched [] = True"
| "deletes_justified env fetched (Select p data # es) =
     deletes_justified env (case data of None \<Rightarrow> [] | Some queries \<Rightarrow> queries) es"
| "deletes_justified env fetched (Delete ids # es) =
     (list_all (\<lambda>i. list_ex (\<lambda>q. q_id q = i \<and> of_nat (estimateQueryTokenCount env q) > maxTokens env)
                       fetched) ids
      \<and> deletes_justified env fetched es)"
| "deletes_justified env fetched (e # es) = deletes_justified env fetched es"

fun marks_processed :: "effect \<Rightarrow> bool" where
  "marks_processed (Update vals idv) = set_processed vals"
| "marks_processed e = True"

definition job_trace_ok :: "env \<Rightarrow> effect list \<Rightarrow> bool" where
  "job_trace_ok env es \<longleftrightarrow> deletes_justified env [] es \<and> list_all marks_processed es"

definition step_ok :: "env \<Rightarrow> 'a world \<Rightarrow> 'a world \<Rightarrow> bool" where
  "step_ok env w w' \<longleftrightarrow>
     take (length (trace w)) (trace w') = trace w \<and>
     job_trace_ok env (drop (length (trace w)) (trace w')) \<and>
     list_all (\<lambda>r'. processed r' \<or> r' \<in> set (rows w)) (rows w')"

section \<open>Concrete inputs\<close>

text \<open>
  An environment for the examples: the cutoff is 20 (so the budget is 10), the cost of a
  record is the length of its id, prompt and response together, the store never fails,
  and the completions endpoint is unreachable. Strings are ASCII, and of the values that
  are not strings the examples turn only \<^verbatim>\<open>undefined\<close>, \<^verbatim>\<open>null\<close>, booleans, the number 5
  and objects into text. \<open>env_llm body parsed errs\<close> is the same
  environment with a completions endpoint that answers \<open>body\<close>, a parser that yields
  \<open>parsed\<close> and a store that fails when \<open>errs\<close> says so.
\<close>

definition env0 :: env where
  "env0 =
     \<lparr>CONTEXT_TOKENS_CUTOFF_GPT_3_5_TURBO = 20,
      approximatedTokenCount = length,
      JSON_stringify =
        (\<lambda>q. q_id q @ (case q_prompt q of None \<Rightarrow> [] | Some s \<Rightarrow> s)
                     @ (case q_response q of None \<Rightarrow> [] | Some s \<Rightarrow> s)),
      JSON_stringify_pretty = (\<lambda>qs. concat (map q_id qs)),
      JSON_parse = (\<lambda>s. None),
      getProjectConfigData = (\<lambda>p. None),
      OPENAI_API_KEY = Some ''key'',
      getCompletionsUrl = (\<lambda>m. ''https://completions''),
      safeParseInt = (\<lambda>v d. case v of Some (JNum x) \<Rightarrow> \<lfloor>x\<rfloor> | _ \<Rightarrow> d),
      getCompletionsResponseText =
        (\<lambda>j m. case get_prop j ''text'' of Inr (Some (JStr s)) \<Rightarrow> s | _ \<Rightarrow> []),
      fetch_json = (\<lambda>r. None),
      store_error = (\<lambda>n. False),
      text_column = (\<lambda>v. None),
      filter_text =
        (\<lambda>v. case v of None \<Rightarrow> ''undefined'' | Some JNull \<Rightarrow> ''null''
              | Some (JBool b) \<Rightarrow> (if b then ''true'' else ''false'')
              | Some (JNum x) \<Rightarrow> (if x = 5 then ''5'' else ''NaN'')
              | _ \<Rightarrow> ''[object Object]''),
      code_points = map (\<lambda>c. [c]),
      utf16_length = length,
      view_project_ids = None\<rparr>"

definition env_llm :: "json option \<Rightarrow> json option \<Rightarrow> (nat \<Rightarrow> bool) \<Rightarrow> env" where
  "env_llm body parsed errs =
     env0\<lparr>JSON_parse := (\<lambda>s. parsed), fetch_json := (\<lambda>r. body), store_error := errs\<rparr>"

text \<open>
  A response body without error that reports 42 tokens, rows and entries, and the
  records fetched in the examples.
\<close>

definition ok_body :: json where
  "ok_body = JObj [(''usage'', JObj [(''total_tokens'', JNum 42)]), (''text'', JStr ''completion'')]"

definition mk_row :: "string \<Rightarrow> string \<Rightarrow> string \<Rightarrow> row" where
  "mk_row i p t = \<lparr>row_id = i, project_id = p, processed = False, prompt = Some t, response = None\<rparr>"

definition mk_entry :: "string \<Rightarrow> string \<Rightarrow> string \<Rightarrow> json" where
  "mk_entry i p r = JObj [(''id'', JStr i), (''prompt'', JStr p), (''response'', JStr r)]"

definition q_big :: QueryStatData where
  "q_big = \<lparr>q_id = ''big'', q_prompt = Some ''0123456789'', q_response = None\<rparr>"

definition q_a :: QueryStatData where
  "q_a = \<lparr>q_id = ''a'', q_prompt = Some ''hi'', q_response = Some ''yo''\<rparr>"

definition fetched_abc :: "QueryStatData list" where
  "fetched_abc =
     [\<lparr>q_id = ''a'', q_prompt = Some ''hi'', q_response = None\<rparr>,
      \<lparr>q_id = ''b'', q_prompt = Some ''he'', q_response = None\<rparr>,
      \<lparr>q_id = ''c'', q_prompt = Some ''ho'', q_response = None\<rparr>]"

text \<open>
  Stores: one whose first record of project \<open>p1\<close> costs exactly the budget, one
  without unprocessed records of \<open>p1\<close>, one with an oversized record, and one with
  three small records of \<open>p1\<close> (four in \<open>w_abcd\<close>) next to a record of another
  project; the last one once the request has been sent.
\<close>

definition w_edge :: "unit world" where
  "w_edge = \<lparr>rows = [mk_row ''ten'' ''p1'' ''1234567'', mk_row ''x'' ''p2'' ''secret''], trace = []\<rparr>"

definition w_done :: "unit world" where
  "w_done = \<lparr>rows = [(mk_row ''a'' ''p1'' ''hi'')\<lparr>processed := True\<rparr>, mk_row ''x'' ''p2'' ''secret''],
             trace = []\<rparr>"

definition w_big :: "unit world" where
  "w_big = \<lparr>rows = [mk_row ''big'' ''p1'' ''0123456789'', mk_row ''a'' ''p1'' ''hi''], trace = []\<rparr>"

definition w_abc :: "unit world" where
  "w_abc = \<lparr>rows = [mk_row ''a'' ''p1'' ''hi'', mk_row ''b'' ''p1'' ''he'', mk_row ''c'' ''p1'' ''ho'',
                     mk_row ''x'' ''p2'' ''secret''],
            trace = []\<rparr>"

definition w_abcd :: "unit world" where
  "w_abcd = \<lparr>rows = [mk_row ''a'' ''p1'' ''hi'', mk_row ''b'' ''p1'' ''he'', mk_row ''c'' ''p1'' ''ho'',
                      mk_row ''d'' ''p1'' ''hu''],
             trace = []\<rparr>"

definition w_abc_sent :: "env \<Rightarrow> unit world" where
  "w_abc_sent env =
     w_abc\<lparr>trace := [Select ''p1'' (Some fetched_abc), GetProjectConfig ''p1'',
                      Fetch (completionsRequest env ''p1'' fetched_abc)]\<rparr>"

definition record42 :: effect where
  "record42 = RecordProjectTokenCount ''p1'' (LLMInfo model_gpt) 42 ''query-stats''"

text \<open>
  Environments: the model answers with an entry for an id that was not submitted; with
  the three submitted entries while the store fails on the second update; with an array
  holding \<^verbatim>\<open>null\<close>; with an array that begins with \<^verbatim>\<open>null\<close>; with a body that has
  neither error nor usage; with an entry whose id is the number 5, then \<^verbatim>\<open>null\<close>, then
  an entry for a submitted id, against a store holding a row \<open>5\<close> of another project;
  with an API error; with a text that does not parse.
\<close>

definition env_edge :: env where
  "env_edge = env_llm (Some ok_body) (Some (JArr [mk_entry ''x'' ''P'' ''R''])) (\<lambda>n. False)"

definition env_abc :: env where
  "env_abc =
     env_llm (Some ok_body)
       (Some (JArr [mk_entry ''a'' ''A1'' ''A2'', mk_entry ''b'' ''B1'' ''B2'', mk_entry ''c'' ''C1'' ''C2'']))
       (\<lambda>n. n = 5)"



definition env_no_usage :: env where
  "env_no_usage = env_llm (Some (JObj [(''text'', JStr ''completion'')])) None (\<lambda>n. False)"





definition env_error :: env where
  "env_error = env_llm (Some (JObj [(''error'', JObj [(''message'', JStr ''rate limit'')])])) None (\<lambda>n. False)"

definition env_garbled :: env where
  "env_garbled = env_llm (Some ok_body) None (\<lambda>n. False)"

text \<open>
  A store that is down, and requests.
\<close>

definition env_down :: env where
  "env_down = env_llm (Some ok_body) None (\<lambda>n. True)"

definition get_p1 :: NextApiRequest where
  "get_p1 = \<lparr>req_method = Some ''GET'', req_projectId = Some ''p1''\<rparr>"

definition post_p1 :: NextApiRequest where
  "post_p1 = \<lparr>req_method = Some ''POST'', req_projectId = Some ''p1''\<rparr>"

definition no_method :: NextApiRequest where
  "no_method = \<lparr>req_method = None, req_projectId = None\<rparr>"

section \<open>Lemmas\<close>

subsection \<open>The trim loop\<close>

lemma batchCost_simps [simp]:
  "batchCost env [] = 0"
  "batchCost env (q # qs) = estimateQueryTokenCount env q + batchCost env qs"
  "batchCost env (xs @ ys) = batchCost env xs + batchCost env ys"
  by (simp_all add: batchCost_def)

lemma trimQueries_loop_acc:
  "trimQueries_loop env m t acc qs = acc @ trimQueries_loop env m t [] qs"
proof (induction qs arbitrary: t acc)
  case Nil
  show ?case by simp
next
  case (Cons q qs)
  show ?case
    using Cons.IH [of "t + estimateQueryTokenCount env q" "acc @ [q]"]
          Cons.IH [of "t + estimateQueryTokenCount env q" "[q]"]
    by (simp add: Let_def)
qed

lemma trimQueries_loop_over:
  "\<not> (of_nat t :: rat) < m \<Longrightarrow> trimQueries_loop env m t [] qs = []"
  by (cases qs) (auto simp: Let_def)

lemma find_append_list:
  "List.find P (xs @ ys) = (case List.find P xs of None \<Rightarrow> List.find P ys | Some x \<Rightarrow> Some x)"
  by (induction xs) auto

lemma find_map_list:
  "List.find P (map f xs) = map_option f (List.find (\<lambda>x. P (f x)) xs)"
  by (induction xs) auto

lemma find_longest_prefix:
  "List.find (\<lambda>p. (of_nat (t + batchCost env p) :: rat) < m) (rev (prefixes qs)) =
     (if of_nat t < m then Some (trimQueries_loop env m t [] qs) else None)"
proof (induction qs arbitrary: t)
  case Nil
  show ?case by simp
next
  case (Cons q qs)
  let ?t' = "t + estimateQueryTokenCount env q"
  let ?F = "\<lambda>t qs. List.find (\<lambda>p. (of_nat (t + batchCost env p) :: rat) < m) (rev (prefixes qs))"
  have mono: "(of_nat ?t' :: rat) < m \<Longrightarrow> (of_nat t :: rat) < m"
    by (metis le_add1 of_nat_le_iff order_le_less_trans)
  have step: "?F t (q # qs) =
        (case ?F ?t' qs of
           None \<Rightarrow> (if of_nat t < m then Some [] else None)
         | Some p \<Rightarrow> Some (q # p))"
    by (simp add: find_append_list find_map_list rev_map add.assoc split: option.splits)
  show ?case
  proof (cases "(of_nat ?t' :: rat) < m")
    case True
    have "?F ?t' qs = Some (trimQueries_loop env m ?t' [] qs)"
      using Cons.IH [of ?t'] True by (simp only: if_True)
    moreover have "trimQueries_loop env m t [] (q # qs) = q # trimQueries_loop env m ?t' [] qs"
      using True trimQueries_loop_acc [of env m ?t' "[q]" qs] by (simp add: Let_def not_le)
    ultimately show ?thesis
      using mono [OF True] by (simp only: step option.case if_True)
  next
    case False
    have "?F ?t' qs = None"
      using Cons.IH [of ?t'] False by (simp only: if_False)
    moreover have "trimQueries_loop env m t [] (q # qs) = []"
      using False by (simp add: Let_def not_less)
    ultimately show ?thesis
      by (simp only: step option.case)
  qed
qed

lemma trim_prefix: "prefix (trimQueries_loop env m t [] qs) qs"
proof (induction qs arbitrary: t)
  case Nil
  show ?case by simp
next
  case (Cons q qs)
  show ?case
    using Cons.IH [of "t + estimateQueryTokenCount env q"]
          trimQueries_loop_acc [of env m "t + estimateQueryTokenCount env q" "[q]" qs]
    by (simp add: Let_def)
qed

lemma trim_prefix_cost:
  "prefix p (trimQueries_loop env m t [] qs) \<Longrightarrow> p \<noteq> [] \<Longrightarrow>
     (of_nat (t + batchCost env p) :: rat) < m"
proof (induction qs arbitrary: t p)
  case Nil
  then show ?case by simp
next
  case (Cons q qs)
  let ?t' = "t + estimateQueryTokenCount env q"
  show ?case
  proof (cases "(of_nat ?t' :: rat) < m")
    case False
    with Cons.prems show ?thesis by (simp add: Let_def not_less)
  next
    case True
    have unf: "trimQueries_loop env m t [] (q # qs) = q # trimQueries_loop env m ?t' [] qs"
      using True trimQueries_loop_acc [of env m ?t' "[q]" qs] by (simp add: Let_def not_le)
    from Cons.prems obtain p' where p: "p = q # p'" and pre: "prefix p' (trimQueries_loop env m ?t' [] qs)"
      unfolding unf by (auto simp: prefix_Cons)
    show ?thesis
    proof (cases "p' = []")
      case True
      with p \<open>(of_nat ?t' :: rat) < m\<close> show ?thesis by simp
    next
      case False
      from Cons.IH [OF pre False] show ?thesis by (simp add: p add.assoc)
    qed
  qed
qed

lemma trim_member_below:
  assumes "q \<in> set (trimQueries env queries m)"
  shows "(of_nat (estimateQueryTokenCount env q) :: rat) < m"
proof -
  let ?b = "trimQueries env queries m"
  from assms have ne: "?b \<noteq> []" by auto
  have "(of_nat (batchCost env ?b) :: rat) < m"
    using trim_prefix_cost [of ?b env m 0 queries] ne by (simp add: trimQueries_def)
  moreover have "estimateQueryTokenCount env q \<le> batchCost env ?b"
    using assms by (simp add: batchCost_def member_le_sum_list)
  ultimately show ?thesis
    by (metis of_nat_le_iff order_le_less_trans)
qed

lemma overflowing_ids:
  "set (overflowingQueryIds env queries) =
     q_id ` {q \<in> set queries. of_nat (estimateQueryTokenCount env q) > maxTokens env}"
  by (auto simp: overflowingQueryIds_def List.map_filter_def split: if_splits)

lemma overflowing_justified:
  "list_all (\<lambda>i. list_ex (\<lambda>q. q_id q = i \<and> of_nat (estimateQueryTokenCount env q) > maxTokens env)
                    queries) (overflowingQueryIds env queries)"
  by (auto simp: list_all_iff list_ex_iff overflowing_ids)

subsection \<open>The store calls\<close>

lemma select_world:
  "snd (select_query_stats env p w) = w\<lparr>trace := trace w @ [Select p (fst (select_query_stats env p w))]\<rparr>"
  by (simp add: select_query_stats_def Let_def)

lemma update_eq_id_rows:
  "rows (snd (update_eq_id env vals idv w)) =
     (if store_error env (length (trace w)) then rows w
      else map (\<lambda>r. if row_id r = eq_text env idv then apply_update env vals r else r) (rows w))"
  by (simp add: update_eq_id_def Let_def)

lemma eq_text_string [simp]: "eq_text env (Some (JStr s)) = s"
  by (simp add: eq_text_def)


lemma row_frame_apply_update [simp]: "row_frame (apply_update env vals r) = row_frame r"
  by (simp add: row_frame_def apply_update_def)

lemma update_eq_id_frame:
  "map row_frame (rows (snd (update_eq_id env vals idv w))) = map row_frame (rows w)"
  by (simp add: update_eq_id_rows comp_def)

lemma row_id_frame: "(\<lambda>r. fst (row_frame r)) = row_id"
  by (simp add: row_frame_def)

subsection \<open>The parts of processProjectQueryStats\<close>

lemma submitQueries_trace:
  "trace (snd (submitQueries env p w)) = trace w @ submitTrace env p (fst (select_query_stats env p w))"
  unfolding submitQueries_def submitTrace_def
  by (cases "select_query_stats env p w")
     (use select_world [of env p w] in
      \<open>auto simp: Let_def delete_in_id_def split: option.splits\<close>)

lemma submitQueries_rows:
  "rows (snd (submitQueries env p w)) =
     (case fst (select_query_stats env p w) of
        None \<Rightarrow> rows w
      | Some queries \<Rightarrow>
          if overflowingQueryIds env queries = [] \<or> store_error env (Suc (length (trace w)))
          then rows w
          else filter (\<lambda>r. row_id r \<notin> set (overflowingQueryIds env queries)) (rows w))"
  unfolding submitQueries_def
  by (cases "select_query_stats env p w")
     (use select_world [of env p w] in
      \<open>auto simp: Let_def delete_in_id_def overflowingQueryIds_def split: option.splits\<close>)

lemma submitQueries_result:
  "fst (submitQueries env p w) =
     (case fst (select_query_stats env p w) of
        None \<Rightarrow> Inl (Inr 0)
      | Some queries \<Rightarrow>
          if queries = [] then Inl (Inr 0)
          else (case fetch_json env (completionsRequest env p (trimQueries env queries (maxTokens env))) of
                  None \<Rightarrow> Inl (Inl FetchRejected)
                | Some json \<Rightarrow> Inr json))"
  unfolding submitQueries_def
  by (cases "select_query_stats env p w")
     (auto simp: Let_def split: option.splits)

lemma submitQueries_no_update:
  "filter is_Update (trace (snd (submitQueries env p w))) = filter is_Update (trace w)"
  by (simp add: submitQueries_trace submitTrace_def split: option.splits)

lemma submitQueries_rows_subset: "set (rows (snd (submitQueries env p w))) \<subseteq> set (rows w)"
  by (auto simp: submitQueries_rows split: option.splits if_splits)

lemma recordUsage_rows: "rows (snd (recordUsage env p json w)) = rows w"
  by (auto simp: recordUsage_def Let_def split: sum.splits)

lemma recordUsage_early: "recordUsage env p json w = (Inl r, w') \<Longrightarrow> w' = w"
  by (auto simp: recordUsage_def Let_def split: sum.splits if_splits)

lemma recordUsage_continue:
  "recordUsage env p json w = (Inr text, w') \<longleftrightarrow>
     (\<exists>err usage tt.
        get_prop json ''error'' = Inr err \<and> \<not> truthy err \<and>
        get_prop json ''usage'' = Inr usage \<and> get_prop_val usage ''total_tokens'' = Inr tt \<and>
        text = getCompletionsResponseText env json model_gpt \<and>
        w' = w\<lparr>trace := trace w @
               [RecordProjectTokenCount p (LLMInfo model_gpt) (safeParseInt env tt 0) ''query-stats'']\<rparr>)"
  by (auto simp: recordUsage_def Let_def split: sum.splits if_splits)

lemma recordUsage_trace:
  "trace (snd (recordUsage env p json w)) @
     (case fst (recordUsage env p json w) of
        Inl r \<Rightarrow> []
      | Inr text \<Rightarrow> map entryUpdate (takeWhile (\<lambda>e. e \<noteq> JNull) (parsedEntries env text))) =
   trace w @ completionTrace env p json"
  by (auto simp: recordUsage_def completionTrace_def Let_def split: sum.splits)

lemma updateEntries_trace:
  "trace (snd (updateEntries env entries w)) =
     trace w @ map entryUpdate (takeWhile (\<lambda>e. e \<noteq> JNull) entries)"
proof (induction entries arbitrary: w)
  case Nil
  show ?case by simp
next
  case (Cons e es)
  show ?case
    by (cases e) (simp_all add: Cons.IH update_eq_id_def Let_def entryUpdate_def entry_prop_def)
qed

lemma updateEntries_result:
  "fst (updateEntries env entries w) = (if JNull \<in> set entries then Inl TypeError else Inr ())"
proof (induction entries arbitrary: w)
  case Nil
  show ?case by simp
next
  case (Cons e es)
  show ?case
    by (cases e) (simp_all add: Cons.IH)
qed

lemma updateEntries_catch:
  "(case updateEntries env es w of
      (Inl e, w') \<Rightarrow> (Inr 0, w')
    | (Inr u, w') \<Rightarrow> (Inr n, w')) =
   (Inr (if JNull \<in> set es then 0 else n), snd (updateEntries env es w))"
  using updateEntries_result [of env es w]
  by (cases "updateEntries env es w") (auto split: sum.splits if_splits)

lemma updateEntries_Cons:
  "e \<noteq> JNull \<Longrightarrow>
   updateEntries env (e # es) w =
     updateEntries env es
       (snd (update_eq_id env
               \<lparr>set_processed = True, set_prompt = entry_prop e ''prompt'',
                set_response = entry_prop e ''response''\<rparr> (entry_prop e ''id'') w))"
  by (cases e) (simp_all add: entry_prop_def)

lemma updateEntries_frame:
  "map row_frame (rows (snd (updateEntries env entries w))) = map row_frame (rows w)"
proof (induction entries arbitrary: w)
  case Nil
  show ?case by simp
next
  case (Cons e es)
  show ?case
    by (cases e) (simp_all add: Cons.IH update_eq_id_frame)
qed

lemma updateQueryStats_eq:
  "updateQueryStats env text w =
     (case JSON_parse env text of
        None \<Rightarrow> (Inr 0, w)
      | Some d \<Rightarrow>
          (case js_entries env d of
             Inl e \<Rightarrow> (Inr 0, w)
           | Inr (es, n) \<Rightarrow> (Inr (if JNull \<in> set es then 0 else n),
                             snd (updateEntries env es w))))"
  by (simp add: updateQueryStats_def updateEntries_catch split: option.splits sum.splits prod.splits)

lemma updateQueryStats_trace:
  "trace (snd (updateQueryStats env text w)) =
     trace w @ map entryUpdate (takeWhile (\<lambda>e. e \<noteq> JNull) (parsedEntries env text))"
  by (simp add: updateQueryStats_eq parsedEntries_def updateEntries_trace
           split: option.splits sum.splits prod.splits)

lemma updateQueryStats_rows:
  "rows (snd (updateQueryStats env text w)) =
     rows (snd (updateEntries env (parsedEntries env text) w))"
  by (simp add: updateQueryStats_eq parsedEntries_def split: option.splits sum.splits prod.splits)

lemma process_early:
  "submitQueries env p w = (Inl r, w1) \<Longrightarrow> processProjectQueryStats env p w = (r, w1)"
  by (simp add: processProjectQueryStats_def)

lemma process_no_text:
  "submitQueries env p w = (Inr json, w1) \<Longrightarrow> recordUsage env p json w1 = (Inl r, w2) \<Longrightarrow>
     processProjectQueryStats env p w = (r, w1)"
  using recordUsage_early [of env p json w1 r w2]
  by (simp add: processProjectQueryStats_def)

lemma process_text:
  "submitQueries env p w = (Inr json, w1) \<Longrightarrow> recordUsage env p json w1 = (Inr text, w2) \<Longrightarrow>
     processProjectQueryStats env p w = updateQueryStats env text w2"
  by (simp add: processProjectQueryStats_def)

lemma process_trace:
  "trace (snd (processProjectQueryStats env p w)) =
     trace w @ submitTrace env p (fst (select_query_stats env p w))
     @ (case fst (submitQueries env p w) of
          Inl r \<Rightarrow> []
        | Inr json \<Rightarrow> completionTrace env p json)"
proof (cases "submitQueries env p w")
  case (Pair a w1)
  have tr: "trace w1 = trace w @ submitTrace env p (fst (select_query_stats env p w))"
    using submitQueries_trace [of env p w] Pair by simp
  show ?thesis
  proof (cases a)
    case (Inl r)
    with Pair tr show ?thesis by (simp add: process_early)
  next
    case (Inr json)
    obtain b w2 where ru: "recordUsage env p json w1 = (b, w2)"
      by (cases "recordUsage env p json w1")
    show ?thesis
    proof (cases b)
      case (Inl r)
      with recordUsage_trace [of env p json w1] recordUsage_early [of env p json w1 r w2] ru Pair Inr tr
      show ?thesis by (simp add: process_no_text)
    next
      case (Inr ctext)
      with recordUsage_trace [of env p json w1] ru Pair \<open>a = Inr json\<close> tr
      show ?thesis by (simp add: process_text updateQueryStats_trace)
    qed
  qed
qed

lemma process_trace': 
  "trace (snd (processProjectQueryStats env p w)) = trace w @ processTrace env p w"
  by (simp add: process_trace processTrace_def)

lemma process_frame:
  "map row_frame (rows (snd (processProjectQueryStats env p w))) =
     map row_frame (rows (snd (submitQueries env p w)))"
proof (cases "submitQueries env p w")
  case (Pair a w1)
  show ?thesis
  proof (cases a)
    case (Inl r)
    with Pair show ?thesis by (simp add: process_early)
  next
    case (Inr json)
    obtain b w2 where ru: "recordUsage env p json w1 = (b, w2)"
      by (cases "recordUsage env p json w1")
    have rw: "rows w2 = rows w1"
      using recordUsage_rows [of env p json w1] ru by simp
    show ?thesis
    proof (cases b)
      case (Inl r)
      with ru Pair Inr show ?thesis by (simp add: process_no_text)
    next
      case (Inr ctext)
      with ru Pair \<open>a = Inr json\<close> rw show ?thesis
        by (simp add: process_text updateQueryStats_rows updateEntries_frame)
    qed
  qed
qed

lemma process_row_ids:
  "row_id ` set (rows (snd (processProjectQueryStats env p w))) =
   row_id ` set (rows (snd (submitQueries env p w)))"
proof -
  have "map row_id (rows (snd (processProjectQueryStats env p w))) =
        map row_id (rows (snd (submitQueries env p w)))"
    using arg_cong [OF process_frame [of env p w], of "map fst"]
    by (simp add: comp_def row_id_frame)
  then show ?thesis by (metis set_map)
qed

subsection \<open>Rows under the update loop\<close>

lemma touched_refl: "touched S r r"
  by (simp add: touched_def)

lemma touched_trans: "touched S a b \<Longrightarrow> touched S b c \<Longrightarrow> touched S a c"
  by (auto simp: touched_def row_frame_def)

lemma touched_mono: "S \<subseteq> T \<Longrightarrow> touched S a b \<Longrightarrow> touched T a b"
  by (auto simp: touched_def)

lemma update_touched:
  "list_all2 (touched {eq_text env idv}) (rows w)
     (rows (snd (update_eq_id env \<lparr>set_processed = True, set_prompt = p, set_response = r\<rparr> idv w)))"
  by (auto simp: update_eq_id_rows list_all2_conv_all_nth touched_def apply_update_def row_frame_def)

lemma list_all2_touched_trans:
  "list_all2 (touched S) xs ys \<Longrightarrow> list_all2 (touched S) ys zs \<Longrightarrow> list_all2 (touched S) xs zs"
  using list_all2_trans [of "touched S" "touched S" "touched S" xs ys zs] touched_trans
  by blast

lemma list_all2_touched_mono:
  "S \<subseteq> T \<Longrightarrow> list_all2 (touched S) xs ys \<Longrightarrow> list_all2 (touched T) xs ys"
  using list_all2_mono [of "touched S" xs ys "touched T"] touched_mono by blast

lemma updateEntries_touched:
  "list_all2 (touched (entryIds env entries)) (rows w) (rows (snd (updateEntries env entries w)))"
proof (induction entries arbitrary: w)
  case Nil
  show ?case by (simp add: list_all2_conv_all_nth touched_refl)
next
  case (Cons e es)
  show ?case
  proof (cases "e = JNull")
    case True
    then show ?thesis by (simp add: list_all2_conv_all_nth touched_refl)
  next
    case False
    let ?w1 = "snd (update_eq_id env
               \<lparr>set_processed = True, set_prompt = entry_prop e ''prompt'',
                set_response = entry_prop e ''response''\<rparr> (entry_prop e ''id'') w)"
    have a: "list_all2 (touched (entryIds env (e # es))) (rows w) (rows ?w1)"
      by (rule list_all2_touched_mono [OF _ update_touched]) (simp add: entryIds_def)
    have b: "list_all2 (touched (entryIds env (e # es))) (rows ?w1)
               (rows (snd (updateEntries env es ?w1)))"
      by (rule list_all2_touched_mono [OF _ Cons.IH]) (auto simp: entryIds_def)
    show ?thesis
      using list_all2_touched_trans [OF a b] by (simp only: updateEntries_Cons [OF False])
  qed
qed



lemma list_all2_touched_member:
  "list_all2 (touched S) xs ys \<Longrightarrow> r' \<in> set ys \<Longrightarrow> \<exists>r \<in> set xs. touched S r r'"
  by (metis in_set_conv_nth list_all2_conv_all_nth)






lemma process_unprocessed_rows:
  assumes "r' \<in> set (rows (snd (processProjectQueryStats env p w)))" and "\<not> processed r'"
  shows "r' \<in> set (rows w)"
proof (cases "submitQueries env p w")
  case (Pair a w1)
  have sub: "set (rows w1) \<subseteq> set (rows w)"
    using submitQueries_rows_subset [of env p w] Pair by simp
  show ?thesis
  proof (cases a)
    case (Inl r)
    with Pair assms sub show ?thesis by (auto simp: process_early)
  next
    case (Inr json)
    obtain b w2 where ru: "recordUsage env p json w1 = (b, w2)"
      by (cases "recordUsage env p json w1")
    have rw: "rows w2 = rows w1"
      using recordUsage_rows [of env p json w1] ru by simp
    show ?thesis
    proof (cases b)
      case (Inl r)
      with ru Pair Inr assms sub show ?thesis by (auto simp: process_no_text)
    next
      case (Inr ctext)
      with ru Pair \<open>a = Inr json\<close> assms
      have "r' \<in> set (rows (snd (updateEntries env (parsedEntries env ctext) w2)))"
        by (simp add: process_text updateQueryStats_rows)
      then obtain r where "r \<in> set (rows w2)" "touched (entryIds env (parsedEntries env ctext)) r r'"
        using list_all2_touched_member [OF updateEntries_touched] by blast
      with assms(2) have "r' \<in> set (rows w2)" by (auto simp: touched_def)
      with rw sub show ?thesis by auto
    qed
  qed
qed

subsection \<open>The calls of a whole run\<close>

lemma deletes_justified_quiet:
  "list_all (\<lambda>e. \<not> is_Delete e \<and> (case e of Select p d \<Rightarrow> False | _ \<Rightarrow> True)) es \<Longrightarrow>
   deletes_justified env g es"
  by (induction env g es rule: deletes_justified.induct) auto

lemma deletes_justified_append:
  "deletes_justified env g xs \<Longrightarrow> (\<forall>h. deletes_justified env h ys) \<Longrightarrow>
   deletes_justified env g (xs @ ys)"
  by (induction env g xs rule: deletes_justified.induct) auto

lemma deletes_justified_mono:
  "deletes_justified env [] es \<Longrightarrow> deletes_justified env g es"
proof (induction es arbitrary: g)
  case Nil
  show ?case by simp
next
  case (Cons e es)
  then show ?case
    by (cases e) (auto simp: list_all_iff)
qed

lemma entryUpdates_quiet:
  "list_all (\<lambda>e. \<not> is_Delete e \<and> (case e of Select p d \<Rightarrow> False | _ \<Rightarrow> True)) (map entryUpdate es)"
  by (induction es) (auto simp: entryUpdate_def)

lemma entryUpdates_mark: "list_all marks_processed (map entryUpdate es)"
  by (induction es) (auto simp: entryUpdate_def)

lemma completionTrace_quiet:
  "list_all (\<lambda>e. \<not> is_Delete e \<and> (case e of Select p d \<Rightarrow> False | _ \<Rightarrow> True))
     (completionTrace env p json)"
  by (auto simp: completionTrace_def entryUpdates_quiet split: sum.splits)

lemma completionTrace_mark: "list_all marks_processed (completionTrace env p json)"
  by (auto simp: completionTrace_def entryUpdates_mark split: sum.splits)

lemma processTrace_justified: "deletes_justified env g (processTrace env p w)"
proof -
  let ?c = "case fst (submitQueries env p w) of Inl r \<Rightarrow> [] | Inr json \<Rightarrow> completionTrace env p json"
  have q: "list_all (\<lambda>e. \<not> is_Delete e \<and> (case e of Select p d \<Rightarrow> False | _ \<Rightarrow> True)) ?c"
    by (simp add: completionTrace_quiet split: sum.splits)
  have c: "deletes_justified env h ?c" for h
    by (rule deletes_justified_quiet [OF q])
  show ?thesis
    unfolding processTrace_def
    using c overflowing_justified [of env]
    by (auto simp: submitTrace_def split: option.splits)
qed

lemma processTrace_mark: "list_all marks_processed (processTrace env p w)"
  by (auto simp: processTrace_def submitTrace_def completionTrace_mark split: option.splits sum.splits)

lemma job_trace_ok_append:
  "job_trace_ok env xs \<Longrightarrow> job_trace_ok env ys \<Longrightarrow> job_trace_ok env (xs @ ys)"
  using deletes_justified_append [of env "[]" xs ys] deletes_justified_mono [of env ys]
  by (auto simp: job_trace_ok_def)

lemma step_okI:
  "trace w' = trace w @ N \<Longrightarrow> job_trace_ok env N \<Longrightarrow>
   (\<And>r'. r' \<in> set (rows w') \<Longrightarrow> \<not> processed r' \<Longrightarrow> r' \<in> set (rows w)) \<Longrightarrow>
   step_ok env w w'"
  by (auto simp: step_ok_def list_all_iff)

lemma step_okD:
  assumes "step_ok env w w'"
  shows "trace w' = trace w @ drop (length (trace w)) (trace w')"
    and "job_trace_ok env (drop (length (trace w)) (trace w'))"
    and "r' \<in> set (rows w') \<Longrightarrow> \<not> processed r' \<Longrightarrow> r' \<in> set (rows w)"
  using assms append_take_drop_id [of "length (trace w)" "trace w'"]
  by (auto simp: step_ok_def list_all_iff)

lemma step_ok_refl: "step_ok env w w"
  by (rule step_okI [of _ _ "[]"]) (simp_all add: job_trace_ok_def)

lemma step_ok_trans:
  assumes "step_ok env w w1" and "step_ok env w1 w2"
  shows "step_ok env w w2"
proof (rule step_okI)
  show "trace w2 = trace w @ (drop (length (trace w)) (trace w1) @ drop (length (trace w1)) (trace w2))"
    using step_okD(1) [OF assms(1)] step_okD(1) [OF assms(2)] by (metis append.assoc)
  show "job_trace_ok env (drop (length (trace w)) (trace w1) @ drop (length (trace w1)) (trace w2))"
    by (rule job_trace_ok_append [OF step_okD(2) [OF assms(1)] step_okD(2) [OF assms(2)]])
  show "r' \<in> set (rows w)" if "r' \<in> set (rows w2)" "\<not> processed r'" for r'
    using that step_okD(3) [OF assms(2)] step_okD(3) [OF assms(1)] by blast
qed

lemma process_step_ok: "step_ok env w (snd (processProjectQueryStats env p w))"
proof (rule step_okI)
  show "trace (snd (processProjectQueryStats env p w)) = trace w @ processTrace env p w"
    by (rule process_trace')
  show "job_trace_ok env (processTrace env p w)"
    by (simp add: job_trace_ok_def processTrace_justified processTrace_mark)
  show "r' \<in> set (rows w)"
    if "r' \<in> set (rows (snd (processProjectQueryStats env p w)))" "\<not> processed r'" for r'
    using that by (rule process_unprocessed_rows)
qed

lemma processProjects_step_ok: "step_ok env w (snd (processProjects env ps n w))"
proof (induction env ps n w rule: processProjects.induct)
  case (1 env totalProcessed w)
  show ?case by (simp add: step_ok_refl)
next
  case (2 env ps totalProcessed w)
  then show ?case by simp
next
  case (3 env p ps totalProcessed w)
  show ?case
  proof (cases "p = []")
    case True
    with 3 show ?thesis by simp
  next
    case False
    obtain a w' where pr: "processProjectQueryStats env p w = (a, w')"
      by (cases "processProjectQueryStats env p w")
    have s1: "step_ok env w w'"
      using process_step_ok [of env w p] pr by simp
    show ?thesis
    proof (cases a)
      case (Inl e)
      with pr False s1 show ?thesis by simp
    next
      case (Inr n)
      have "step_ok env w' (snd (processProjects env ps (totalProcessed + n) w'))"
        using "3.IH"(2) [OF False pr [symmetric] Inr] .
      with pr False Inr s1 show ?thesis
        by (simp add: step_ok_trans)
    qed
  qed
qed

lemma snd_case_result:
  "snd (case x of (Inl e, w') \<Rightarrow> (Inl e, w') | (Inr n, w') \<Rightarrow> (Inr (f n), w')) = snd x"
  by (simp split: prod.splits sum.splits)

lemma handler_step_ok: "step_ok env w (snd (handler env req w))"
proof -
  have d: "step_ok env w (snd (processDiscovered env w))"
  proof -
    let ?w1 = "w\<lparr>trace := trace w @ [SelectProjectIds]\<rparr>"
    have a: "step_ok env w ?w1"
      by (rule step_okI [of _ _ "[SelectProjectIds]"]) (simp_all add: job_trace_ok_def)
    show ?thesis
    proof (cases "view_project_ids env")
      case None
      with a show ?thesis by (simp add: processDiscovered_def)
    next
      case (Some data)
      have "step_ok env ?w1 (snd (processProjects env (take 20 data) 0 ?w1))"
        by (rule processProjects_step_ok)
      with a have "step_ok env w (snd (processProjects env (take 20 data) 0 ?w1))"
        by (rule step_ok_trans)
      with Some show ?thesis
        by (simp add: processDiscovered_def snd_case_result)
    qed
  qed
  have p: "step_ok env w (snd (case processProjectQueryStats env q w of
             (Inl e, w') \<Rightarrow> (Inl e, w') | (Inr n, w') \<Rightarrow> (Inr (ok n), w')))" for q
    using process_step_ok [of env w q] by (simp add: snd_case_result)
  show ?thesis
    using d p by (simp add: handler_def step_ok_refl split: option.splits)
qed

lemma fst_case_result:
  "fst (case x of (Inl e, w') \<Rightarrow> (Inl e, w') | (Inr n, w') \<Rightarrow> (Inr (ok n), w')) = Inr res \<Longrightarrow>
   \<exists>n. res = ok n"
  by (cases x) (auto split: sum.splits)

lemma processDiscovered_ok:
  "fst (processDiscovered env w) = Inr res \<Longrightarrow> \<exists>n. res = ok n"
  using fst_case_result [of "processProjects env (take 20 (the (view_project_ids env))) 0
                               (w\<lparr>trace := trace w @ [SelectProjectIds]\<rparr>)" res]
  by (cases "view_project_ids env") (auto simp: processDiscovered_def Let_def)

subsection \<open>Evaluating the examples\<close>

lemmas run_defs =
  processProjectQueryStats_def submitQueries_def recordUsage_def updateQueryStats_def
  select_query_stats_def delete_in_id_def update_eq_id_def apply_update_def
  overflowingQueryIds_def maxTokens_def estimateQueryTokenCount_def trimQueries_def
  env_llm_def env0_def ok_body_def mk_row_def mk_entry_def List.map_filter_def Let_def

lemmas abc_defs =
  w_abc_def w_abc_sent_def fetched_abc_def record42_def

lemma env0_cost [simp]:
  "maxTokens env0 = 10"
  "estimateQueryTokenCount env0 q_big = 13"
  "estimateQueryTokenCount env0 q_a = 5"
  by (simp_all add: maxTokens_def estimateQueryTokenCount_def env0_def q_big_def q_a_def)

lemma mk_entry_not_null [simp]: "mk_entry i p r \<noteq> JNull"
  by (simp add: mk_entry_def)

section \<open>The claims\<close>

subsection \<open>C1: the greedy trim\<close>

text \<open>
  C1, as stated, does not hold. The claim has the greedy trim run over the records that
  remain after overflow eviction and return their longest prefix below the budget. With
  the oversized record \<open>q_big\<close> fetched before \<open>q_a\<close>, that reading selects
  \<open>[q_a]\<close>, while \<^verbatim>\<open>trimQueries\<close>, which is given the whole fetched list, stops at
  \<open>q_big\<close> and returns the empty batch.
\<close>

theorem trim_not_prefix_of_remaining:
  "trimQueries env0 [q_big, q_a] (maxTokens env0) = [] \<and>
   spec_longest_prefix env0 (maxTokens env0) (spec_remaining env0 (maxTokens env0) [q_big, q_a]) = [q_a]"
  by (simp add: trimQueries_def spec_longest_prefix_def spec_remaining_def Let_def)

text \<open>
  C1, amended. For every fetched list and every budget, \<^verbatim>\<open>trimQueries\<close> iterates all the
  fetched records, oversized ones included, in their fetched order, and returns exactly
  the longest prefix of the fetched list whose cumulative estimated cost is below the
  budget (possibly empty): nothing after the stopping point is included and nothing is
  reordered. That prefix of the fetched list, for the budget of half the cutoff, is the
  batch the driver submits.
\<close>

theorem trim_is_longest_prefix:
  "trimQueries env queries budget = spec_longest_prefix env budget queries \<and>
   prefix (trimQueries env queries budget) queries \<and>
   (fst (select_query_stats env p w) = Some queries \<and> queries \<noteq> []
      \<longrightarrow> Fetch (completionsRequest env p (spec_longest_prefix env (maxTokens env) queries))
            \<in> set (trace (snd (processProjectQueryStats env p w))))"
proof -
  have eq: "trimQueries env queries m = spec_longest_prefix env m queries" for m
    using find_longest_prefix [of 0 env m queries] trimQueries_loop_over [of 0 m env queries]
    by (auto simp: trimQueries_def spec_longest_prefix_def)
  have pre: "prefix (trimQueries env queries budget) queries"
    using trim_prefix [of env budget 0 queries] by (simp add: trimQueries_def)
  have "Fetch (completionsRequest env p (spec_longest_prefix env (maxTokens env) queries))
      \<in> set (trace (snd (processProjectQueryStats env p w)))"
    if "fst (select_query_stats env p w) = Some queries \<and> queries \<noteq> []"
    using that by (simp add: process_trace submitTrace_def eq [symmetric])
  with eq pre show ?thesis by blast
qed

theorem trim_is_longest_prefix_witness:
  "fst (select_query_stats env_abc ''p1'' w_abcd) =
     Some (fetched_abc @ [\<lparr>q_id = ''d'', q_prompt = Some ''hu'', q_response = None\<rparr>]) \<and>
   spec_longest_prefix env_abc (maxTokens env_abc)
     (fetched_abc @ [\<lparr>q_id = ''d'', q_prompt = Some ''hu'', q_response = None\<rparr>]) = fetched_abc \<and>
   Fetch (completionsRequest env_abc ''p1'' fetched_abc)
     \<in> set (trace (snd (processProjectQueryStats env_abc ''p1'' w_abcd)))"
proof -
  let ?qs = "fetched_abc @ [\<lparr>q_id = ''d'', q_prompt = Some ''hu'', q_response = None\<rparr>]"
  have a: "fst (select_query_stats env_abc ''p1'' w_abcd) = Some ?qs"
    by (simp add: run_defs abc_defs env_abc_def w_abcd_def)
  have b: "trimQueries env_abc ?qs (maxTokens env_abc) = fetched_abc"
    by (simp add: run_defs abc_defs env_abc_def)
  have c: "?qs \<noteq> []" by simp
  note t = trim_is_longest_prefix [of env_abc ?qs "maxTokens env_abc" "''p1''" w_abcd]
  have d: "spec_longest_prefix env_abc (maxTokens env_abc) ?qs = fetched_abc"
    using t b by simp
  show ?thesis
    using t a c d by simp
qed

subsection \<open>C2: the empty batch\<close>

text \<open>
  C2, as stated, does not hold. One record is fetched whose cost equals the budget: it is
  not oversized, and the trim discards it, so the batch is empty. The request is sent all
  the same, with an empty list, and the count returned is the number of entries the model
  answers with (here 1), not 0.
\<close>

theorem empty_batch_still_submitted:
  "fst (select_query_stats env_edge ''p1'' w_edge) =
     Some [\<lparr>q_id = ''ten'', q_prompt = Some ''1234567'', q_response = None\<rparr>] \<and>
   trimQueries env_edge [\<lparr>q_id = ''ten'', q_prompt = Some ''1234567'', q_response = None\<rparr>]
     (maxTokens env_edge) = [] \<and>
   filter is_Fetch (trace (snd (processProjectQueryStats env_edge ''p1'' w_edge))) =
     [Fetch (completionsRequest env_edge ''p1'' [])] \<and>
   fst (processProjectQueryStats env_edge ''p1'' w_edge) = Inr 1"
  by (simp add: run_defs env_edge_def w_edge_def)

text \<open>
  C2, amended. When the select yields no record (\<^verbatim>\<open>null\<close> or an empty list), the driver
  returns 0 at once: the select is the only call made, so there is no request to the
  model and no store write.
\<close>

theorem no_records_no_call:
  assumes "fst (select_query_stats env p w) = None \<or> fst (select_query_stats env p w) = Some []"
  shows "processProjectQueryStats env p w =
           (Inr 0, w\<lparr>trace := trace w @ [Select p (fst (select_query_stats env p w))]\<rparr>)"
proof -
  from assms have "submitQueries env p w =
     (Inl (Inr 0), w\<lparr>trace := trace w @ [Select p (fst (select_query_stats env p w))]\<rparr>)"
    using select_world [of env p w]
    by (cases "select_query_stats env p w") (auto simp: submitQueries_def)
  then show ?thesis
    by (rule process_early)
qed

theorem no_records_no_call_witness:
  "fst (select_query_stats env_edge ''p1'' w_done) = Some [] \<and>
   processProjectQueryStats env_edge ''p1'' w_done =
     (Inr 0, w_done\<lparr>trace := [Select ''p1'' (Some [])]\<rparr>) \<and>
   fst (select_query_stats env_down ''p1'' w_abc) = None \<and>
   processProjectQueryStats env_down ''p1'' w_abc =
     (Inr 0, w_abc\<lparr>trace := [Select ''p1'' None]\<rparr>)"
proof -
  have a: "fst (select_query_stats env_edge ''p1'' w_done) = Some []"
    by (simp add: run_defs env_edge_def w_done_def)
  have b: "fst (select_query_stats env_down ''p1'' w_abc) = None"
    by (simp add: run_defs env_down_def)
  have c: "trace w_done = []" "trace w_abc = []"
    by (simp_all add: w_done_def w_abc_def)
  show ?thesis
    using no_records_no_call [of env_edge "''p1''" w_done] no_records_no_call [of env_down "''p1''" w_abc]
    by (simp add: a b c)
qed

subsection \<open>C3: the batch stays below the budget\<close>

text \<open>
  C3. For every list of fetched records and every budget the trim can be given, the sum
  of the estimated costs of the returned batch is strictly below the budget, and it is so
  after every individual addition (every non-empty prefix of the returned batch is a
  state of the batch after an addition). \<^verbatim>\<open>trimQueries\<close> is private to the module and is
  called once, with half the cutoff as its budget, a positive number for a positive
  cutoff; the statement holds for every positive budget, and for a non-empty batch
  whatever the budget.
\<close>

theorem trim_below_budget:
  "(0 < CONTEXT_TOKENS_CUTOFF_GPT_3_5_TURBO env
      \<longrightarrow> of_nat (batchCost env (trimQueries env queries (maxTokens env))) < maxTokens env) \<and>
   (0 < budget \<or> trimQueries env queries budget \<noteq> []
      \<longrightarrow> of_nat (batchCost env (trimQueries env queries budget)) < budget) \<and>
   (\<forall>k. 0 < k \<and> k \<le> length (trimQueries env queries budget)
      \<longrightarrow> of_nat (batchCost env (take k (trimQueries env queries budget))) < budget)"
proof -
  have below: "of_nat (batchCost env (trimQueries env queries m)) < m"
    if "0 < m \<or> trimQueries env queries m \<noteq> []" for m
    using that trim_prefix_cost [of "trimQueries env queries m" env m 0 queries]
    by (cases "trimQueries env queries m = []") (auto simp: trimQueries_def)
  have pos: "0 < maxTokens env" if "0 < CONTEXT_TOKENS_CUTOFF_GPT_3_5_TURBO env"
    using that by (simp add: maxTokens_def)
  have steps: "of_nat (batchCost env (take k (trimQueries env queries budget))) < budget"
    if k: "0 < k \<and> k \<le> length (trimQueries env queries budget)" for k
  proof -
    from k have "take k (trimQueries env queries budget) \<noteq> []" by auto
    then show ?thesis
      using trim_prefix_cost [of "take k (trimQueries env queries budget)" env budget 0 queries]
      by (simp add: trimQueries_def take_is_prefix)
  qed
  show ?thesis
    using below [of "maxTokens env"] below [of budget] pos steps by blast
qed

theorem trim_below_budget_witness:
  "0 < CONTEXT_TOKENS_CUTOFF_GPT_3_5_TURBO env0 \<and> 0 < maxTokens env0 \<and>
   trimQueries env0 [q_a, q_big] (maxTokens env0) = [q_a] \<and>
   of_nat (batchCost env0 (trimQueries env0 [q_a, q_big] (maxTokens env0))) < maxTokens env0 \<and>
   0 < (1::nat) \<and> 1 \<le> length (trimQueries env0 [q_a, q_big] (maxTokens env0)) \<and>
   of_nat (batchCost env0 (take 1 (trimQueries env0 [q_a, q_big] (maxTokens env0)))) < maxTokens env0"
proof -
  have a: "0 < CONTEXT_TOKENS_CUTOFF_GPT_3_5_TURBO env0"
    by (simp add: env0_def)
  show ?thesis
    using trim_below_budget [of env0 "[q_a, q_big]" "maxTokens env0"] a
    by (simp add: trimQueries_def Let_def)
qed

subsection \<open>C4: oversized records\<close>

text \<open>
  C4. A fetched record whose estimated cost exceeds the threshold (half the cutoff) is not
  a member of the batch that is submitted, and a delete naming its id is issued in the
  same invocation; when that delete does not fail, no row with this id is left in the
  store at the end of the invocation.
\<close>

theorem oversized_deleted_never_batched:
  assumes "fst (select_query_stats env p w) = Some queries"
    and "q \<in> set queries"
    and "of_nat (estimateQueryTokenCount env q) > maxTokens env"
  shows "q \<notin> set (trimQueries env queries (maxTokens env)) \<and>
         Fetch (completionsRequest env p (trimQueries env queries (maxTokens env)))
           \<in> set (trace (snd (processProjectQueryStats env p w))) \<and>
         q_id q \<in> set (overflowingQueryIds env queries) \<and>
         Delete (overflowingQueryIds env queries)
           \<in> set (trace (snd (processProjectQueryStats env p w))) \<and>
         (\<not> store_error env (Suc (length (trace w))) \<longrightarrow>
            (\<forall>r \<in> set (rows (snd (processProjectQueryStats env p w))). row_id r \<noteq> q_id q))"
proof -
  have ne: "queries \<noteq> []" using assms(2) by auto
  have mem: "q_id q \<in> set (overflowingQueryIds env queries)"
    using assms(2,3) by (auto simp: overflowing_ids)
  then have ids: "overflowingQueryIds env queries \<noteq> []" by auto
  have "q \<notin> set (trimQueries env queries (maxTokens env))"
    using trim_member_below [of q env queries "maxTokens env"] assms(3) by auto
  moreover have "Fetch (completionsRequest env p (trimQueries env queries (maxTokens env)))
      \<in> set (trace (snd (processProjectQueryStats env p w)))"
    using assms(1) ne by (simp add: process_trace submitTrace_def)
  moreover have "Delete (overflowingQueryIds env queries)
      \<in> set (trace (snd (processProjectQueryStats env p w)))"
    using assms(1) ne ids by (simp add: process_trace submitTrace_def)
  moreover have "\<forall>r \<in> set (rows (snd (processProjectQueryStats env p w))). row_id r \<noteq> q_id q"
    if "\<not> store_error env (Suc (length (trace w)))"
  proof -
    have "q_id q \<notin> row_id ` set (rows (snd (submitQueries env p w)))"
      using that assms(1) ids mem by (auto simp: submitQueries_rows)
    then show ?thesis
      using process_row_ids [of env p w] by (metis imageI)
  qed
  ultimately show ?thesis using mem by blast
qed

theorem oversized_deleted_never_batched_witness:
  "fst (select_query_stats env_edge ''p1'' w_big) =
     Some [q_big, \<lparr>q_id = ''a'', q_prompt = Some ''hi'', q_response = None\<rparr>] \<and>
   of_nat (estimateQueryTokenCount env_edge q_big) > maxTokens env_edge \<and>
   q_big \<notin> set (trimQueries env_edge [q_big, \<lparr>q_id = ''a'', q_prompt = Some ''hi'', q_response = None\<rparr>]
                  (maxTokens env_edge)) \<and>
   Delete [''big''] \<in> set (trace (snd (processProjectQueryStats env_edge ''p1'' w_big))) \<and>
   \<not> store_error env_edge (Suc (length (trace w_big))) \<and>
   ''big'' \<notin> row_id ` set (rows (snd (processProjectQueryStats env_edge ''p1'' w_big)))"
proof -
  let ?qs = "[q_big, \<lparr>q_id = ''a'', q_prompt = Some ''hi'', q_response = None\<rparr>]"
  have a: "fst (select_query_stats env_edge ''p1'' w_big) = Some ?qs"
    by (simp add: run_defs env_edge_def w_big_def q_big_def)
  have b: "of_nat (estimateQueryTokenCount env_edge q_big) > maxTokens env_edge"
    by (simp add: run_defs env_edge_def q_big_def)
  have c: "overflowingQueryIds env_edge ?qs = [''big'']"
    by (simp add: run_defs env_edge_def q_big_def)
  have d: "\<not> store_error env_edge (Suc (length (trace w_big)))"
    by (simp add: run_defs env_edge_def)
  have e: "q_id q_big = ''big''"
    by (simp add: q_big_def)
  show ?thesis
    using oversized_deleted_never_batched [OF a _ b] a b d
    by (auto simp: c e)
qed

subsection \<open>C5: one update per parsed entry\<close>




subsection \<open>C6: failed completions\<close>

text \<open>
  C6, as stated, does not hold for a transport error. When the request to the completions
  endpoint is rejected, the driver does not return 0: the rejection leaves the function
  as an exception.
\<close>

theorem fetch_rejected_counterexample:
  "fetch_json env0 (completionsRequest env0 ''p1'' fetched_abc) = None \<and>
   fst (processProjectQueryStats env0 ''p1'' w_abc) = Inl FetchRejected"
  by (simp add: run_defs abc_defs)

text \<open>
  C6, amended. When the response body carries a truthy \<^verbatim>\<open>error\<close>, or the completion
  text does not parse as JSON, the driver returns 0 and issues no store update; when the
  request itself is rejected, it issues no store update either and raises. In all three
  cases the store holds only rows it held before, unchanged (the overflow deletion may
  have removed some).
\<close>

theorem failed_completion_updates_nothing:
  "(submitQueries env p w = (Inr json, w1) \<and> get_prop json ''error'' = Inr err \<and> truthy err
      \<longrightarrow> processProjectQueryStats env p w = (Inr 0, w1)) \<and>
   (submitQueries env p w = (Inr json, w1) \<and> recordUsage env p json w1 = (Inr ctext, w2) \<and>
    JSON_parse env ctext = None
      \<longrightarrow> processProjectQueryStats env p w = (Inr 0, w2) \<and> rows w2 = rows w1 \<and>
          filter is_Update (trace w2) = filter is_Update (trace w1)) \<and>
   (submitQueries env p w = (Inl (Inl FetchRejected), w1)
      \<longrightarrow> processProjectQueryStats env p w = (Inl FetchRejected, w1)) \<and>
   (submitQueries env p w = (a, w1)
      \<longrightarrow> filter is_Update (trace w1) = filter is_Update (trace w) \<and> set (rows w1) \<subseteq> set (rows w))"
proof (intro conjI impI)
  assume h: "submitQueries env p w = (Inr json, w1) \<and> get_prop json ''error'' = Inr err \<and> truthy err"
  then have "recordUsage env p json w1 = (Inl (Inr 0), w1)"
    by (simp add: recordUsage_def)
  with h show "processProjectQueryStats env p w = (Inr 0, w1)"
    by (simp add: process_no_text)
next
  assume h: "submitQueries env p w = (Inr json, w1) \<and> recordUsage env p json w1 = (Inr ctext, w2) \<and>
    JSON_parse env ctext = None"
  then show "processProjectQueryStats env p w = (Inr 0, w2)"
    by (simp add: process_text updateQueryStats_eq)
  from h show "rows w2 = rows w1"
    using recordUsage_rows [of env p json w1] by simp
  from h show "filter is_Update (trace w2) = filter is_Update (trace w1)"
    by (auto simp: recordUsage_continue)
next
  assume "submitQueries env p w = (Inl (Inl FetchRejected), w1)"
  then show "processProjectQueryStats env p w = (Inl FetchRejected, w1)"
    by (rule process_early)
next
  assume h: "submitQueries env p w = (a, w1)"
  show "filter is_Update (trace w1) = filter is_Update (trace w)"
    using submitQueries_no_update [of env p w] h by simp
  show "set (rows w1) \<subseteq> set (rows w)"
    using submitQueries_rows_subset [of env p w] h by simp
qed

theorem failed_completion_updates_nothing_witness:
  "submitQueries env_error ''p1'' w_abc =
     (Inr (JObj [(''error'', JObj [(''message'', JStr ''rate limit'')])]), w_abc_sent env_error) \<and>
   truthy (Some (JObj [(''message'', JStr ''rate limit'')])) \<and>
   processProjectQueryStats env_error ''p1'' w_abc = (Inr 0, w_abc_sent env_error) \<and>
   submitQueries env_garbled ''p1'' w_abc = (Inr ok_body, w_abc_sent env_garbled) \<and>
   recordUsage env_garbled ''p1'' ok_body (w_abc_sent env_garbled) =
     (Inr ''completion'', (w_abc_sent env_garbled)\<lparr>trace := trace (w_abc_sent env_garbled) @ [record42]\<rparr>) \<and>
   JSON_parse env_garbled ''completion'' = None \<and>
   processProjectQueryStats env_garbled ''p1'' w_abc =
     (Inr 0, (w_abc_sent env_garbled)\<lparr>trace := trace (w_abc_sent env_garbled) @ [record42]\<rparr>) \<and>
   submitQueries env0 ''p1'' w_abc = (Inl (Inl FetchRejected), w_abc_sent env0) \<and>
   processProjectQueryStats env0 ''p1'' w_abc = (Inl FetchRejected, w_abc_sent env0) \<and>
   filter is_Update (trace (w_abc_sent env0)) = filter is_Update (trace w_abc) \<and>
   rows (w_abc_sent env0) = rows w_abc"
proof -
  let ?ebody = "JObj [(''error'', JObj [(''message'', JStr ''rate limit'')])]"
  let ?w2 = "(w_abc_sent env_garbled)\<lparr>trace := trace (w_abc_sent env_garbled) @ [record42]\<rparr>"
  have a: "submitQueries env_error ''p1'' w_abc = (Inr ?ebody, w_abc_sent env_error)"
    by (simp add: run_defs abc_defs env_error_def env_garbled_def)
  have b: "get_prop ?ebody ''error'' = Inr (Some (JObj [(''message'', JStr ''rate limit'')]))"
    by simp
  have c: "truthy (Some (JObj [(''message'', JStr ''rate limit'')]))"
    by simp
  have d: "submitQueries env_garbled ''p1'' w_abc = (Inr ok_body, w_abc_sent env_garbled)"
    by (simp add: run_defs abc_defs env_error_def env_garbled_def)
  have e: "recordUsage env_garbled ''p1'' ok_body (w_abc_sent env_garbled) = (Inr ''completion'', ?w2)"
    by (simp add: run_defs abc_defs env_error_def env_garbled_def)
  have f: "JSON_parse env_garbled ''completion'' = None"
    by (simp add: run_defs abc_defs env_error_def env_garbled_def)
  have g: "submitQueries env0 ''p1'' w_abc = (Inl (Inl FetchRejected), w_abc_sent env0)"
    by (simp add: run_defs abc_defs env_error_def env_garbled_def)
  have h: "rows (w_abc_sent env0) = rows w_abc"
    by (simp add: abc_defs env_error_def env_garbled_def)
  note t1 = failed_completion_updates_nothing
    [of env_error "''p1''" w_abc ?ebody "w_abc_sent env_error"
        "Some (JObj [(''message'', JStr ''rate limit'')])"]
  note t2 = failed_completion_updates_nothing
    [of env_garbled "''p1''" w_abc ok_body "w_abc_sent env_garbled" _ "''completion''" ?w2]
  note t3 = failed_completion_updates_nothing
    [of env0 "''p1''" w_abc _ "w_abc_sent env0" _ _ _ "Inl (Inl FetchRejected)"]
  show ?thesis
    using t1 t2 t3 a b c d e f g h by simp
qed

subsection \<open>C7: what an update touches\<close>




subsection \<open>C8: metering\<close>

text \<open>
  C8, as stated, does not hold for every response without an error. A body that carries
  neither an \<^verbatim>\<open>error\<close> nor a \<^verbatim>\<open>usage\<close> makes the read of \<^verbatim>\<open>json.usage.total_tokens\<close>
  (line 157) throw: the function ends with the exception and nothing is recorded.
\<close>

theorem no_usage_counterexample:
  "get_prop (JObj [(''text'', JStr ''completion'')]) ''error'' = Inr None \<and>
   \<not> truthy None \<and>
   submitQueries env_no_usage ''p1'' w_abc =
     (Inr (JObj [(''text'', JStr ''completion'')]), w_abc_sent env_no_usage) \<and>
   processProjectQueryStats env_no_usage ''p1'' w_abc = (Inl TypeError, w_abc_sent env_no_usage)"
  by (simp add: run_defs abc_defs env_no_usage_def)

text \<open>
  C8, amended. Whenever the response carries no error and has a usage
  (\<^verbatim>\<open>json.usage.total_tokens\<close> can be read, that is, \<^verbatim>\<open>json.usage\<close> is neither
  \<^verbatim>\<open>undefined\<close> nor \<^verbatim>\<open>null\<close>), the call that records
  \<^verbatim>\<open>safeParseInt(json.usage.total_tokens, 0)\<close> for the project with the label
  \<^verbatim>\<open>'query-stats'\<close> is the first call made after the response arrives: it comes before
  every update, and it is made whatever \<^verbatim>\<open>JSON.parse\<close> does with the completion text.
\<close>

theorem usage_recorded_before_parsing:
  assumes "submitQueries env p w = (Inr json, w1)"
    and "get_prop json ''error'' = Inr err" and "\<not> truthy err"
    and "get_prop json ''usage'' = Inr usage"
    and "get_prop_val usage ''total_tokens'' = Inr tt"
  shows "trace (snd (processProjectQueryStats env p w)) =
           trace w1 @
           RecordProjectTokenCount p (LLMInfo model_gpt) (safeParseInt env tt 0) ''query-stats''
           # map entryUpdate
               (takeWhile (\<lambda>e. e \<noteq> JNull)
                  (parsedEntries env (getCompletionsResponseText env json model_gpt))) \<and>
         filter is_Update (trace w1) = filter is_Update (trace w)"
proof -
  have "trace w1 = trace w @ submitTrace env p (fst (select_query_stats env p w))"
    using submitQueries_trace [of env p w] assms(1) by simp
  moreover have "completionTrace env p json =
     RecordProjectTokenCount p (LLMInfo model_gpt) (safeParseInt env tt 0) ''query-stats''
     # map entryUpdate
         (takeWhile (\<lambda>e. e \<noteq> JNull)
            (parsedEntries env (getCompletionsResponseText env json model_gpt)))"
    using assms(2-5) by (simp add: completionTrace_def)
  moreover have "filter is_Update (trace w1) = filter is_Update (trace w)"
    using submitQueries_no_update [of env p w] assms(1) by simp
  ultimately show ?thesis
    using assms(1) by (simp add: process_trace)
qed

theorem usage_recorded_before_parsing_witness:
  "submitQueries env_garbled ''p1'' w_abc = (Inr ok_body, w_abc_sent env_garbled) \<and>
   get_prop ok_body ''error'' = Inr None \<and> \<not> truthy None \<and>
   get_prop ok_body ''usage'' = Inr (Some (JObj [(''total_tokens'', JNum 42)])) \<and>
   get_prop_val (Some (JObj [(''total_tokens'', JNum 42)])) ''total_tokens'' = Inr (Some (JNum 42)) \<and>
   JSON_parse env_garbled (getCompletionsResponseText env_garbled ok_body model_gpt) = None \<and>
   trace (snd (processProjectQueryStats env_garbled ''p1'' w_abc)) =
     trace (w_abc_sent env_garbled) @ [RecordProjectTokenCount ''p1'' (LLMInfo model_gpt) 42 ''query-stats''] \<and>
   submitQueries env_abc ''p1'' w_abc = (Inr ok_body, w_abc_sent env_abc) \<and>
   trace (snd (processProjectQueryStats env_abc ''p1'' w_abc)) =
     trace (w_abc_sent env_abc) @ RecordProjectTokenCount ''p1'' (LLMInfo model_gpt) 42 ''query-stats''
     # map entryUpdate [mk_entry ''a'' ''A1'' ''A2'', mk_entry ''b'' ''B1'' ''B2'', mk_entry ''c'' ''C1'' ''C2'']"
proof -
  have a: "submitQueries env_garbled ''p1'' w_abc = (Inr ok_body, w_abc_sent env_garbled)"
    by (simp add: run_defs abc_defs env_garbled_def env_abc_def)
  have a': "submitQueries env_abc ''p1'' w_abc = (Inr ok_body, w_abc_sent env_abc)"
    by (simp add: run_defs abc_defs env_garbled_def env_abc_def)
  have b: "get_prop ok_body ''error'' = Inr None"
    by (simp add: ok_body_def)
  have c: "\<not> truthy None" by simp
  have d: "get_prop ok_body ''usage'' = Inr (Some (JObj [(''total_tokens'', JNum 42)]))"
    by (simp add: ok_body_def)
  have e: "get_prop_val (Some (JObj [(''total_tokens'', JNum 42)])) ''total_tokens'' = Inr (Some (JNum 42))"
    by simp
  have f: "JSON_parse env_garbled (getCompletionsResponseText env_garbled ok_body model_gpt) = None"
    by (simp add: run_defs abc_defs env_garbled_def env_abc_def)
  have g: "parsedEntries env_garbled (getCompletionsResponseText env_garbled ok_body model_gpt) = []"
    by (simp add: parsedEntries_def f)
  have h: "takeWhile (\<lambda>e. e \<noteq> JNull)
       (parsedEntries env_abc (getCompletionsResponseText env_abc ok_body model_gpt)) =
     [mk_entry ''a'' ''A1'' ''A2'', mk_entry ''b'' ''B1'' ''B2'', mk_entry ''c'' ''C1'' ''C2'']"
    by (simp add: parsedEntries_def run_defs abc_defs env_garbled_def env_abc_def)
  have i: "safeParseInt env_garbled (Some (JNum 42)) 0 = 42" "safeParseInt env_abc (Some (JNum 42)) 0 = 42"
    by (simp_all add: run_defs abc_defs env_garbled_def env_abc_def)
  show ?thesis
    using usage_recorded_before_parsing [OF a b c d e] usage_recorded_before_parsing [OF a' b c d e]
      a a' b c d e f
    by (simp add: g h i)
qed

subsection \<open>C9: deletions and the processed flag\<close>

text \<open>
  C9. In every execution of the handler, the calls it adds to the trace satisfy
  \<open>job_trace_ok\<close>: every delete names only ids of records returned by the select just
  before it whose own estimated cost exceeds the threshold, and every update carries
  \<^verbatim>\<open>processed: true\<close>. In the store, a row that is unprocessed at the end is a row that
  was there at the start, unchanged: no write resets a flag.
\<close>

theorem job_deletes_only_oversized_and_never_resets:
  "take (length (trace w)) (trace (snd (handler env req w))) = trace w \<and>
   job_trace_ok env (drop (length (trace w)) (trace (snd (handler env req w)))) \<and>
   (\<forall>r' \<in> set (rows (snd (handler env req w))). \<not> processed r' \<longrightarrow> r' \<in> set (rows w))"
  using handler_step_ok [of env w req]
  by (auto simp: step_ok_def list_all_iff)

theorem job_deletes_only_oversized_and_never_resets_witness:
  "trace (snd (handler env_edge get_p1 w_big)) =
     [Select ''p1'' (Some [q_big, \<lparr>q_id = ''a'', q_prompt = Some ''hi'', q_response = None\<rparr>]),
      Delete [''big''], GetProjectConfig ''p1'',
      Fetch (completionsRequest env_edge ''p1'' []),
      RecordProjectTokenCount ''p1'' (LLMInfo model_gpt) 42 ''query-stats'',
      entryUpdate (mk_entry ''x'' ''P'' ''R'')] \<and>
   job_trace_ok env_edge (trace (snd (handler env_edge get_p1 w_big))) \<and>
   rows (snd (handler env_edge get_p1 w_big)) = [mk_row ''a'' ''p1'' ''hi''] \<and>
   mk_row ''a'' ''p1'' ''hi'' \<in> set (rows w_big)"
proof -
  have a: "trace (snd (handler env_edge get_p1 w_big)) =
     [Select ''p1'' (Some [q_big, \<lparr>q_id = ''a'', q_prompt = Some ''hi'', q_response = None\<rparr>]),
      Delete [''big''], GetProjectConfig ''p1'',
      Fetch (completionsRequest env_edge ''p1'' []),
      RecordProjectTokenCount ''p1'' (LLMInfo model_gpt) 42 ''query-stats'',
      entryUpdate (mk_entry ''x'' ''P'' ''R'')]"
    by (simp add: handler_def get_p1_def allowedMethods_def run_defs env_edge_def
          w_big_def q_big_def entryUpdate_def entry_prop_def)
  have b: "rows (snd (handler env_edge get_p1 w_big)) = [mk_row ''a'' ''p1'' ''hi'']"
    by (simp add: handler_def get_p1_def allowedMethods_def run_defs env_edge_def
          w_big_def)
  have c: "trace w_big = []" "mk_row ''a'' ''p1'' ''hi'' \<in> set (rows w_big)"
    by (simp_all add: w_big_def)
  show ?thesis
    using job_deletes_only_oversized_and_never_resets [of w_big env_edge get_p1] a b c
    by simp
qed

subsection \<open>C10: the method guard\<close>

text \<open>
  C10. A request whose method is not \<^verbatim>\<open>GET\<close> (a missing method included) is answered with
  status 405, the header \<^verbatim>\<open>Allow: GET\<close> and a body holding only the error string, and
  nothing else happens: no call is made and the store is as before. A \<^verbatim>\<open>GET\<close> request
  is never answered that way: whenever the handler responds, the status is 200.
\<close>

theorem method_guard:
  "(req_method req \<noteq> Some ''GET''
      \<longrightarrow> handler env req w =
            (Inr \<lparr>res_status = 405, res_headers = [(''Allow'', [''GET''])],
                  res_body = \<lparr>data_status = None, data_processed = None,
                              data_error = Some (notAllowedMessage (req_method req))\<rparr>\<rparr>, w)) \<and>
   (req_method req = Some ''GET''
      \<longrightarrow> (\<forall>res. fst (handler env req w) = Inr res
                \<longrightarrow> res_status res = 200 \<and> res_headers res = [] \<and> data_error (res_body res) = None))"
proof (rule conjI)
  show "req_method req \<noteq> Some ''GET''
      \<longrightarrow> handler env req w =
            (Inr \<lparr>res_status = 405, res_headers = [(''Allow'', [''GET''])],
                  res_body = \<lparr>data_status = None, data_processed = None,
                              data_error = Some (notAllowedMessage (req_method req))\<rparr>\<rparr>, w)"
  proof (cases "req_method req")
    case None
    then show ?thesis
      by (simp add: handler_def allowedMethods_def)
  next
    case (Some m)
    then show ?thesis
      by (simp add: handler_def allowedMethods_def)
  qed
next
  show "req_method req = Some ''GET''
      \<longrightarrow> (\<forall>res. fst (handler env req w) = Inr res
                \<longrightarrow> res_status res = 200 \<and> res_headers res = [] \<and> data_error (res_body res) = None)"
  proof (intro impI allI)
    fix res
    assume g: "req_method req = Some ''GET''" and r: "fst (handler env req w) = Inr res"
    have "\<exists>n. res = ok n"
    proof (cases "req_projectId req")
      case None
      with g r show ?thesis
        by (simp add: handler_def allowedMethods_def processDiscovered_ok)
    next
      case (Some projectId)
      show ?thesis
      proof (cases "projectId = []")
        case True
        with Some g r show ?thesis
          by (simp add: handler_def allowedMethods_def processDiscovered_ok)
      next
        case False
        with Some g r show ?thesis
          using fst_case_result [of "processProjectQueryStats env projectId w" res]
          by (simp add: handler_def allowedMethods_def)
      qed
    qed
    then show "res_status res = 200 \<and> res_headers res = [] \<and> data_error (res_body res) = None"
      by (auto simp: ok_def)
  qed
qed

theorem method_guard_witness:
  "req_method post_p1 \<noteq> Some ''GET'' \<and>
   handler env_edge post_p1 w_big =
     (Inr \<lparr>res_status = 405, res_headers = [(''Allow'', [''GET''])],
           res_body = \<lparr>data_status = None, data_processed = None,
                       data_error = Some ''Method POST Not Allowed''\<rparr>\<rparr>, w_big) \<and>
   req_method no_method \<noteq> Some ''GET'' \<and>
   handler env_edge no_method w_big =
     (Inr \<lparr>res_status = 405, res_headers = [(''Allow'', [''GET''])],
           res_body = \<lparr>data_status = None, data_processed = None,
                       data_error = Some ''Method undefined Not Allowed''\<rparr>\<rparr>, w_big) \<and>
   req_method get_p1 = Some ''GET'' \<and>
   fst (handler env_edge get_p1 w_big) = Inr (ok 1) \<and> res_status (ok 1) = 200"
proof -
  have n1: "req_method post_p1 \<noteq> Some ''GET''"
    by (simp add: post_p1_def)
  have n2: "req_method no_method \<noteq> Some ''GET''"
    by (simp add: no_method_def)
  have n3: "req_method get_p1 = Some ''GET''"
    by (simp add: get_p1_def)
  have b: "fst (handler env_edge get_p1 w_big) = Inr (ok 1)"
    by (simp add: handler_def get_p1_def allowedMethods_def run_defs env_edge_def w_big_def)
  have m1: "notAllowedMessage (req_method post_p1) = ''Method POST Not Allowed''"
    by (simp add: notAllowedMessage_def post_p1_def)
  have m2: "notAllowedMessage (req_method no_method) = ''Method undefined Not Allowed''"
    by (simp add: notAllowedMessage_def no_method_def)
  note p1 = method_guard [of post_p1 env_edge w_big, THEN conjunct1, THEN mp, OF n1, unfolded m1]
  note p2 = method_guard [of no_method env_edge w_big, THEN conjunct1, THEN mp, OF n2, unfolded m2]
  note p3 = method_guard [of get_p1 env_edge w_big, THEN conjunct2, THEN mp, OF n3,
                          THEN spec, of "ok 1", THEN mp, OF b, THEN conjunct1]
  show ?thesis
    by (intro conjI n1 n2 n3 b p1 p2 p3)
qed

end
